theory Spec2Isabelle
  imports Main "HOL-Library.Char_ord" "HOL-Library.List_Lexorder" "HOL-Library.Multiset"
begin

section \<open>Python values, exceptions and strings\<close>

text \<open>
  The module \<^verbatim>\<open>_utils.py\<close> wraps C structures for the 21cmFAST library. Its two classes
  are embedded here: \<^verbatim>\<open>StructWithDefaults\<close> (a parameter record with class-wide
  defaults) and \<^verbatim>\<open>OutputStruct\<close> (a computed box, cached on disk under a name derived
  from its parameters).

  Field values are Python scalars. A float is carried as the text Python 3 prints for it
  (\<^verbatim>\<open>str\<close> of a float is its shortest round-trip text, so the text determines the
  float); the module does no arithmetic on field values, it only stores and prints them.
\<close>

datatype pyval = PNone | PBool bool | PInt int | PFloat string | PStr string

text \<open>
  Exceptions are values. \<^verbatim>\<open>IOError\<close> carries its message, because the module raises it
  with two different messages; \<open>HookError\<close> stands for whatever a subclass hook raises.
\<close>

datatype error =
    AttributeError string
  | IOError string
  | ValueError string
  | KeyError string
  | TypeError string
  | HookError

definition digit_char :: "nat \<Rightarrow> char" where
  "digit_char n = ''0123456789'' ! n"

function digits :: "nat \<Rightarrow> string" where
  "digits n = (if n < 10 then [digit_char n] else digits (n div 10) @ [digit_char (n mod 10)])"
  by pat_completeness auto
termination
  by (relation "measure id") auto

declare digits.simps [simp del]

text \<open>Python's \<^verbatim>\<open>str\<close> on a scalar.\<close>

fun py_str :: "pyval \<Rightarrow> string" where
  "py_str PNone = ''None''"
| "py_str (PBool b) = (if b then ''True'' else ''False'')"
| "py_str (PInt i) = (if i < 0 then CHR ''-'' # digits (nat (- i)) else digits (nat i))"
| "py_str (PFloat t) = t"
| "py_str (PStr s) = s"

text \<open>\<^verbatim>\<open>s.startswith(p)\<close> and \<^verbatim>\<open>sep.join(xs)\<close>.\<close>

definition startswith :: "string \<Rightarrow> string \<Rightarrow> bool" where
  "startswith s p = (take (length p) s = p)"

fun join :: "string \<Rightarrow> string list \<Rightarrow> string" where
  "join sep [] = []"
| "join sep [x] = x"
| "join sep (x # y # ys) = x @ sep @ join sep (y # ys)"

text \<open>
  \<^verbatim>\<open>sorted\<close> on a list of strings: Python orders strings by code point, which on UTF-8
  bytes is the lexicographic order of the bytes.
\<close>

definition py_sorted :: "string list \<Rightarrow> string list" where
  "py_sorted xs = sort xs"

section \<open>Foreign structures\<close>

text \<open>
  The foreign declarations are a parameter of a class: the fields of its C structure, as
  \<^verbatim>\<open>ffi.typeof(struct).fields\<close> reports them, each with its kind. A structure made by
  \<^verbatim>\<open>ffi.new\<close> is zero-initialised, so its pointer fields are \<^verbatim>\<open>NULL\<close>. A bound pointer
  records the C type it was cast to.
\<close>

datatype ckind = Pointer | Primitive | OtherKind

datatype cval = CNull | CBuf string | CPrim pyval

text \<open>
  The memory of a structure gives a value to each field name; only the names of its
  fields are ever read.
\<close>

type_synonym cdata = "string \<Rightarrow> cval"

definition ffi_new :: "(string \<times> ckind) list \<Rightarrow> cdata" where
  "ffi_new flds = (\<lambda>k. case map_of flds k of Some Pointer \<Rightarrow> CNull | _ \<Rightarrow> CPrim (PInt 0))"

section \<open>Parameter records: \<^verbatim>\<open>StructWithDefaults\<close>\<close>

text \<open>
  A class is given by its name, the class attribute \<^verbatim>\<open>_name\<close>, its \<^verbatim>\<open>_defaults_\<close>
  dictionary (in insertion order), the names it defines as read-only properties, each
  with its getter (a function of the instance dictionary that may raise
  \<^verbatim>\<open>AttributeError\<close>, the value \<open>None\<close>), and the fields of its C structure.
  An instance has its dictionary of attributes, the attribute \<^verbatim>\<open>_name\<close> when
  set, the list \<^verbatim>\<open>_strings\<close> and the private attribute
  \<^verbatim>\<open>_StructWithDefaults__cstruct\<close>, which exists only once the C structure has been
  made.
\<close>

type_synonym attrs = "string \<Rightarrow> pyval option"

type_synonym kwargs = "(string \<times> pyval) list"

record sclass =
  sc_name :: string
  sc_cname :: "string option"
  sc_defaults :: "(string \<times> pyval) list"
  sc_props :: "string \<Rightarrow> (attrs \<Rightarrow> pyval option) option"
  sc_cfields :: "(string \<times> ckind) list"

record sobj =
  s_class :: sclass
  s_attrs :: attrs
  s_name :: "string option"
  s_strings :: "string list"
  s_cstruct :: "cdata option"

datatype warning = Incompatible kwargs

text \<open>
  \<^verbatim>\<open>setattr(self, k, v)\<close>: a property without a setter refuses the assignment.
  \<^verbatim>\<open>getattr(self, k)\<close>: a property of the class comes before the instance dictionary.
\<close>

definition py_setattr :: "sobj \<Rightarrow> string \<Rightarrow> pyval \<Rightarrow> error + sobj" where
  "py_setattr s k v =
     (case sc_props (s_class s) k of
        Some g \<Rightarrow> Inl (AttributeError k)
      | None \<Rightarrow> Inr (s\<lparr>s_attrs := (s_attrs s)(k \<mapsto> v)\<rparr>))"

definition py_getattr :: "sobj \<Rightarrow> string \<Rightarrow> error + pyval" where
  "py_getattr s k =
     (case sc_props (s_class s) k of
        Some g \<Rightarrow> (case g (s_attrs s) of Some v \<Rightarrow> Inr v | None \<Rightarrow> Inl (AttributeError k))
      | None \<Rightarrow> (case s_attrs s k of Some v \<Rightarrow> Inr v | None \<Rightarrow> Inl (AttributeError k)))"

text \<open>
  The body shared by the constructor and \<^verbatim>\<open>update\<close>:
  \<^verbatim>\<open>try: setattr(self, k, v)  except AttributeError: setattr(self, "_" + k, v)\<close>.
\<close>

definition set_field :: "sobj \<Rightarrow> string \<Rightarrow> pyval \<Rightarrow> error + sobj" where
  "set_field s k v =
     (case py_setattr s k v of
        Inr s' \<Rightarrow> Inr s'
      | Inl (AttributeError m) \<Rightarrow> py_setattr s (CHR ''_'' # k) v
      | Inl e \<Rightarrow> Inl e)"

text \<open>\<^verbatim>\<open>_logic\<close> is \<^verbatim>\<open>pass\<close> in this class.\<close>

definition logic :: "sobj \<Rightarrow> sobj" where
  "logic s = s"

definition struct_name :: "sobj \<Rightarrow> string option" where
  "struct_name s = (case s_name s of Some n \<Rightarrow> Some n | None \<Rightarrow> sc_cname (s_class s))"

text \<open>
  \<^verbatim>\<open>__init__(self, **kwargs)\<close>: the loop runs over the defaults only; a keyword that is
  not a default is never looked at. The constructor has no call of \<^verbatim>\<open>warnings.warn\<close>:
  the list of warnings it returns is empty.
\<close>

fun init_loop :: "(string \<times> pyval) list \<Rightarrow> kwargs \<Rightarrow> sobj \<Rightarrow> error + sobj" where
  "init_loop [] kw s = Inr s"
| "init_loop ((k, v) # ds) kw s =
     (case set_field s k (case map_of kw k of Some v' \<Rightarrow> v' | None \<Rightarrow> v) of
        Inl e \<Rightarrow> Inl e
      | Inr s' \<Rightarrow> init_loop ds kw s')"

definition new_sobj :: "sclass \<Rightarrow> sobj" where
  "new_sobj C = \<lparr>s_class = C, s_attrs = Map.empty, s_name = None, s_strings = [], s_cstruct = None\<rparr>"

definition struct_init :: "sclass \<Rightarrow> kwargs \<Rightarrow> (error + sobj) \<times> warning list" where
  "struct_init C kw =
     (case init_loop (sc_defaults C) kw (new_sobj C) of
        Inl e \<Rightarrow> (Inl e, [])
      | Inr s1 \<Rightarrow>
          (let s2 = logic s1;
               s3 = (if struct_name s2 = None then s2\<lparr>s_name := Some (sc_name C)\<rparr> else s2)
           in (Inr (s3\<lparr>s_strings := []\<rparr>), [])))"

text \<open>The cached property \<^verbatim>\<open>_cstruct\<close>: made by \<^verbatim>\<open>_new\<close> on first use, then kept.\<close>

definition struct_cstruct :: "sobj \<Rightarrow> cdata \<times> sobj" where
  "struct_cstruct s =
     (case s_cstruct s of
        Some c \<Rightarrow> (c, s)
      | None \<Rightarrow> (let c = ffi_new (sc_cfields (s_class s)) in (c, s\<lparr>s_cstruct := Some c\<rparr>)))"

text \<open>
  \<^verbatim>\<open>update(self, **kwargs)\<close>. \<^verbatim>\<open>kwargs.pop(k)\<close> removes the key, so what is left after
  the loop are the keywords that are no default. The result is what was raised (if
  anything), the instance as the call leaves it, and the warnings emitted.
  \<^verbatim>\<open>delattr\<close> raises \<^verbatim>\<open>AttributeError\<close> when the attribute does not exist.
\<close>

definition pop_key :: "string \<Rightarrow> kwargs \<Rightarrow> kwargs" where
  "pop_key k kw = filter (\<lambda>(k', v). k' \<noteq> k) kw"

fun update_loop :: "string list \<Rightarrow> kwargs \<Rightarrow> sobj \<Rightarrow> (error + unit) \<times> kwargs \<times> sobj" where
  "update_loop [] kw s = (Inr (), kw, s)"
| "update_loop (k # ks) kw s =
     (case map_of kw k of
        None \<Rightarrow> update_loop ks kw s
      | Some v \<Rightarrow>
          (case set_field s k v of
             Inl e \<Rightarrow> (Inl e, pop_key k kw, s)
           | Inr s' \<Rightarrow> update_loop ks (pop_key k kw) s'))"

definition update :: "sobj \<Rightarrow> kwargs \<Rightarrow> (error + unit) \<times> sobj \<times> warning list" where
  "update s kw =
     (case update_loop (map fst (sc_defaults (s_class s))) kw s of
        (Inl e, kw', s1) \<Rightarrow> (Inl e, s1, [])
      | (Inr u, kw', s1) \<Rightarrow>
          (let ws = (if kw' \<noteq> [] then [Incompatible kw'] else []);
               s2 = logic s1;
               s3 = s2\<lparr>s_strings := []\<rparr>
           in (case s_cstruct s3 of
                 None \<Rightarrow> (Inl (AttributeError ''_StructWithDefaults__cstruct''), s3, ws)
               | Some c \<Rightarrow> (Inr (), s3\<lparr>s_cstruct := None\<rparr>, ws))))"

text \<open>
  The property \<^verbatim>\<open>__defining_dict\<close>, \<^verbatim>\<open>__repr__\<close> and \<^verbatim>\<open>__eq__\<close>.
\<close>

fun collect_fields :: "sobj \<Rightarrow> string list \<Rightarrow> error + (string \<times> pyval) list" where
  "collect_fields s [] = Inr []"
| "collect_fields s (k # ks) =
     (case py_getattr s k of
        Inl e \<Rightarrow> Inl e
      | Inr v \<Rightarrow> (case collect_fields s ks of Inl e \<Rightarrow> Inl e | Inr d \<Rightarrow> Inr ((k, v) # d)))"

definition volatile :: "string \<Rightarrow> bool" where
  "volatile k = startswith k ''RANDOM_SEED''"

definition defining_dict :: "sobj \<Rightarrow> error + (string \<times> pyval) list" where
  "defining_dict s =
     collect_fields s (filter (\<lambda>k. \<not> volatile k) (map fst (sc_defaults (s_class s))))"

definition render :: "string \<times> pyval \<Rightarrow> string" where
  "render kv = fst kv @ '':'' @ py_str (snd kv)"

definition struct_repr :: "sobj \<Rightarrow> error + string" where
  "struct_repr s =
     (case defining_dict s of
        Inl e \<Rightarrow> Inl e
      | Inr d \<Rightarrow> Inr (sc_name (s_class s) @ ''('' @ join '', '' (py_sorted (map render d)) @ '')''))"

definition struct_eq :: "sobj \<Rightarrow> sobj \<Rightarrow> error + bool" where
  "struct_eq s t =
     (case struct_repr s of
        Inl e \<Rightarrow> Inl e
      | Inr a \<Rightarrow> (case struct_repr t of Inl e \<Rightarrow> Inl e | Inr b \<Rightarrow> Inr (a = b)))"

text \<open>
  \<^verbatim>\<open>__hash__\<close> returns \<^verbatim>\<open>hash(self.__repr__)\<close>: the object handed to \<^verbatim>\<open>hash\<close> is the
  bound method of the instance, not the string the method returns. An instance lives at
  an address of the store.
\<close>

datatype hashed = HStr string | HBoundMethod nat string

definition struct_hash_arg :: "nat \<Rightarrow> sobj \<Rightarrow> hashed" where
  "struct_hash_arg a s = HBoundMethod a ''__repr__''"

definition slot :: "sclass \<Rightarrow> string \<Rightarrow> string" where
  "slot C k = (if sc_props C k = None then k else CHR ''_'' # k)"

definition settable :: "sclass \<Rightarrow> string \<Rightarrow> bool" where
  "settable C k = (sc_props C k = None \<or> sc_props C (CHR ''_'' # k) = None)"

definition constructible :: "sclass \<Rightarrow> bool" where
  "constructible C = list_all (settable C) (map fst (sc_defaults C))"

definition recognized :: "sclass \<Rightarrow> kwargs \<Rightarrow> kwargs" where
  "recognized C kw = filter (\<lambda>(k, v). k \<in> set (map fst (sc_defaults C))) kw"

definition rejected :: "sclass \<Rightarrow> kwargs \<Rightarrow> kwargs" where
  "rejected C kw = filter (\<lambda>(k, v). k \<notin> set (map fst (sc_defaults C))) kw"


text \<open>
  The canonical string as the specification words it: the class name, then in
  parentheses every non-volatile field as \<open>name:value\<close>, sorted by field name and
  separated by \<open>; \<close>. It is compared with \<open>struct_repr\<close> below.
\<close>

definition spec_identity :: "sobj \<Rightarrow> error + string" where
  "spec_identity s =
     (case defining_dict s of
        Inl e \<Rightarrow> Inl e
      | Inr d \<Rightarrow> Inr (sc_name (s_class s) @ ''('' @ join ''; '' (map render (sort_key fst d)) @ '')''))"

section \<open>Computed boxes: \<^verbatim>\<open>OutputStruct\<close>\<close>

text \<open>
  An attribute of a box is a scalar, a numpy array (its \<^verbatim>\<open>dtype.name\<close> and its
  elements) or a reference to a parameter record. Parameter records are held by
  reference: they live in a store, at addresses. The instance dictionary keeps its
  insertion order, which \<^verbatim>\<open>__repr__\<close> follows. The private attribute
  \<^verbatim>\<open>_OutputStruct__cstruct\<close> is kept in a field of its own.

  A class is given by its name, its class-level attributes (such as \<^verbatim>\<open>_name\<close> and
  \<^verbatim>\<open>_id\<close>; the base class sets both to \<^verbatim>\<open>None\<close>), the fields of its C structure,
  the values the foreign layer accepts for each field (it refuses anything else with a
  \<^verbatim>\<open>TypeError\<close>), and the method \<^verbatim>\<open>_init_arrays\<close>. The base class does not define
  \<^verbatim>\<open>_init_arrays\<close> (the value \<open>None\<close>, so the call raises \<^verbatim>\<open>AttributeError\<close>); a subclass
  supplies it, and its body may return the instance changed or raise. Methods and
  properties of the class are not looked up as attributes.
\<close>

datatype pyobj = Val pyval | Array string "pyval list" | Ref nat

type_synonym heap = "nat \<Rightarrow> sobj option"

record ostate =
  o_dict :: "(string \<times> pyobj) list"
  o_cstruct :: "cdata option"

record oclass =
  oc_name :: string
  oc_attrs :: "(string \<times> pyval) list"
  oc_cfields :: "(string \<times> ckind) list"
  oc_accepts :: "string \<Rightarrow> cval \<Rightarrow> bool"
  oc_init_arrays :: "(heap \<Rightarrow> ostate \<Rightarrow> ostate option) option"

definition base_attrs :: "(string \<times> pyval) list" where
  "base_attrs = [(''_name'', PNone), (''_id'', PNone)]"

text \<open>Assignment to a dictionary key keeps the key's place, or appends a new key.\<close>

fun dict_set :: "string \<Rightarrow> 'a \<Rightarrow> (string \<times> 'a) list \<Rightarrow> (string \<times> 'a) list" where
  "dict_set k v [] = [(k, v)]"
| "dict_set k v ((k', v') # d) = (if k' = k then (k, v) # d else (k', v') # dict_set k v d)"

definition os_getattr :: "oclass \<Rightarrow> ostate \<Rightarrow> string \<Rightarrow> error + pyobj" where
  "os_getattr C s k =
     (case map_of (o_dict s) k of
        Some v \<Rightarrow> Inr v
      | None \<Rightarrow>
          (case map_of (oc_attrs C @ base_attrs) k of
             Some v \<Rightarrow> Inr (Val v)
           | None \<Rightarrow> Inl (AttributeError k)))"

definition os_hasattr :: "oclass \<Rightarrow> ostate \<Rightarrow> string \<Rightarrow> bool" where
  "os_hasattr C s k = (case os_getattr C s k of Inr v \<Rightarrow> True | Inl e \<Rightarrow> False)"

definition os_setattr :: "ostate \<Rightarrow> string \<Rightarrow> pyobj \<Rightarrow> ostate" where
  "os_setattr s k v = s\<lparr>o_dict := dict_set k v (o_dict s)\<rparr>"

text \<open>
  \<^verbatim>\<open>_new\<close> asks the foreign layer for a structure of the type that \<^verbatim>\<open>_id\<close> names:
  \<^verbatim>\<open>self._ffi.new("struct " + self._id + "*")\<close>. While \<^verbatim>\<open>_id\<close> is \<^verbatim>\<open>None\<close> (the value
  of the base class, which \<^verbatim>\<open>__init__\<close> replaces by the class name only after it has
  called \<^verbatim>\<open>_init_cstruct\<close>), or anything else that is no string, the concatenation
  raises \<^verbatim>\<open>TypeError\<close>. The structure a string names is taken to be the one of the
  class.
\<close>

definition os_new :: "oclass \<Rightarrow> ostate \<Rightarrow> error + cdata" where
  "os_new C s =
     (case os_getattr C s ''_id'' of
        Inl e \<Rightarrow> Inl e
      | Inr (Val (PStr n)) \<Rightarrow> Inr (ffi_new (oc_cfields C))
      | Inr v \<Rightarrow> Inl (TypeError ''_id''))"

text \<open>
  The cached property \<^verbatim>\<open>_cstruct\<close> and the properties read from the structure's type
  (\<^verbatim>\<open>fields\<close>, here \<open>os_fields\<close>, and the two lists taken from it).
  Each of them goes through \<^verbatim>\<open>self._cstruct\<close>, so each makes the structure when it does
  not exist yet, and raises when \<^verbatim>\<open>_new\<close> does.
\<close>

definition os_cstruct :: "oclass \<Rightarrow> ostate \<Rightarrow> (error + cdata) \<times> ostate" where
  "os_cstruct C s =
     (case o_cstruct s of
        Some c \<Rightarrow> (Inr c, s)
      | None \<Rightarrow>
          (case os_new C s of
             Inl e \<Rightarrow> (Inl e, s)
           | Inr c \<Rightarrow> (Inr c, s\<lparr>o_cstruct := Some c\<rparr>)))"

definition os_fields :: "oclass \<Rightarrow> ostate \<Rightarrow> (error + (string \<times> ckind) list) \<times> ostate" where
  "os_fields C s =
     (case os_cstruct C s of
        (Inl e, s') \<Rightarrow> (Inl e, s')
      | (Inr c, s') \<Rightarrow> (Inr (oc_cfields C), s'))"

definition pointer_fields :: "oclass \<Rightarrow> ostate \<Rightarrow> (error + string list) \<times> ostate" where
  "pointer_fields C s =
     (case os_fields C s of
        (Inl e, s') \<Rightarrow> (Inl e, s')
      | (Inr fs, s') \<Rightarrow> (Inr (map fst (filter (\<lambda>(f, t). t = Pointer) fs)), s'))"

definition primitive_fields :: "oclass \<Rightarrow> ostate \<Rightarrow> (error + string list) \<times> ostate" where
  "primitive_fields C s =
     (case os_fields C s of
        (Inl e, s') \<Rightarrow> (Inl e, s')
      | (Inr fs, s') \<Rightarrow> (Inr (map fst (filter (\<lambda>(f, t). t = Primitive) fs)), s'))"

text \<open>
  The property \<^verbatim>\<open>arrays_initialized\<close>: the loop returns at the first field that fails.
  The structure exists once \<^verbatim>\<open>_pointer_fields\<close> has been read, so the loop reads the
  cached one.
\<close>

fun arrays_loop :: "oclass \<Rightarrow> ostate \<Rightarrow> cdata \<Rightarrow> string list \<Rightarrow> bool" where
  "arrays_loop C s c [] = True"
| "arrays_loop C s c (k # ks) =
     (if \<not> os_hasattr C s k then False
      else if c k = CNull then False
      else arrays_loop C s c ks)"

definition arrays_initialized :: "oclass \<Rightarrow> ostate \<Rightarrow> (error + bool) \<times> ostate" where
  "arrays_initialized C s =
     (case pointer_fields C s of
        (Inl e, s1) \<Rightarrow> (Inl e, s1)
      | (Inr pf, s1) \<Rightarrow>
          (case os_cstruct C s1 of
             (Inl e, s2) \<Rightarrow> (Inl e, s2)
           | (Inr c, s2) \<Rightarrow> (Inr (arrays_loop C s2 c pf), s2)))"

text \<open>
  \<^verbatim>\<open>_ary2buf\<close>: the pointer to the array's buffer, cast to the C type that
  \<^verbatim>\<open>_TYPEMAP\<close> gives for the array's dtype. The buffer of a numpy array is not
  \<^verbatim>\<open>NULL\<close>.
\<close>

definition TYPEMAP :: "(string \<times> string) list" where
  "TYPEMAP = [(''float32'', ''float *''), (''float64'', ''double *''), (''int32'', ''int *'')]"

fun ary2buf :: "pyobj \<Rightarrow> error + cval" where
  "ary2buf (Array dt xs) =
     (case map_of TYPEMAP dt of None \<Rightarrow> Inl (KeyError dt) | Some ct \<Rightarrow> Inr (CBuf ct))"
| "ary2buf (Val v) = Inl (ValueError ''ary must be a numpy array'')"
| "ary2buf (Ref a) = Inl (ValueError ''ary must be a numpy array'')"

definition run_init_arrays :: "oclass \<Rightarrow> heap \<Rightarrow> ostate \<Rightarrow> error + ostate" where
  "run_init_arrays C H s =
     (case oc_init_arrays C of
        None \<Rightarrow> Inl (AttributeError ''_init_arrays'')
      | Some f \<Rightarrow> (case f H s of None \<Rightarrow> Inl HookError | Some s' \<Rightarrow> Inr s'))"

text \<open>
  The two loops of \<^verbatim>\<open>_init_cstruct\<close>. In the first, \<^verbatim>\<open>getattr\<close> and \<^verbatim>\<open>_ary2buf\<close> may
  raise; in the second, an \<^verbatim>\<open>AttributeError\<close> is passed over. The arguments of
  \<^verbatim>\<open>setattr\<close> are evaluated from the left, \<^verbatim>\<open>self._cstruct\<close> first.
\<close>

fun bind_pointers :: "oclass \<Rightarrow> string list \<Rightarrow> ostate \<Rightarrow> (error + unit) \<times> ostate" where
  "bind_pointers C [] s = (Inr (), s)"
| "bind_pointers C (k # ks) s =
     (case os_cstruct C s of
        (Inl e, s1) \<Rightarrow> (Inl e, s1)
      | (Inr c, s1) \<Rightarrow>
          (case os_getattr C s1 k of
             Inl e \<Rightarrow> (Inl e, s1)
           | Inr a \<Rightarrow>
               (case ary2buf a of
                  Inl e \<Rightarrow> (Inl e, s1)
                | Inr p \<Rightarrow>
                    (if oc_accepts C k p
                     then bind_pointers C ks (s1\<lparr>o_cstruct := Some (c(k := p))\<rparr>)
                     else (Inl (TypeError k), s1)))))"

fun set_primitives :: "oclass \<Rightarrow> string list \<Rightarrow> ostate \<Rightarrow> (error + unit) \<times> ostate" where
  "set_primitives C [] s = (Inr (), s)"
| "set_primitives C (k # ks) s =
     (case os_cstruct C s of
        (Inl (AttributeError m), s1) \<Rightarrow> set_primitives C ks s1
      | (Inl e, s1) \<Rightarrow> (Inl e, s1)
      | (Inr c, s1) \<Rightarrow>
          (case os_getattr C s1 k of
             Inl (AttributeError m) \<Rightarrow> set_primitives C ks s1
           | Inl e \<Rightarrow> (Inl e, s1)
           | Inr (Val v) \<Rightarrow>
               (if oc_accepts C k (CPrim v)
                then set_primitives C ks (s1\<lparr>o_cstruct := Some (c(k := CPrim v))\<rparr>)
                else (Inl (TypeError k), s1))
           | Inr a \<Rightarrow> (Inl (TypeError k), s1)))"

definition init_cstruct :: "oclass \<Rightarrow> heap \<Rightarrow> ostate \<Rightarrow> (error + unit) \<times> ostate" where
  "init_cstruct C H s =
     (case run_init_arrays C H s of
        Inl e \<Rightarrow> (Inl e, s)
      | Inr s1 \<Rightarrow>
          (case pointer_fields C s1 of
             (Inl e, s2) \<Rightarrow> (Inl e, s2)
           | (Inr pf, s2) \<Rightarrow>
               (case bind_pointers C pf s2 of
                  (Inl e, s3) \<Rightarrow> (Inl e, s3)
                | (Inr u, s3) \<Rightarrow>
                    (case primitive_fields C s3 of
                       (Inl e, s4) \<Rightarrow> (Inl e, s4)
                     | (Inr qf, s4) \<Rightarrow>
                         (case set_primitives C qf s4 of
                            (Inl e, s5) \<Rightarrow> (Inl e, s5)
                          | (Inr u, s5) \<Rightarrow>
                              (case arrays_initialized C s5 of
                                 (Inl e, s6) \<Rightarrow> (Inl e, s6)
                               | (Inr ok, s6) \<Rightarrow>
                                   (if \<not> ok
                                    then (Inl (AttributeError (oc_name C @
                                      '' is ill-defined. It has not initialized all necessary arrays.'')), s6)
                                    else (Inr (), s6))))))))"


subsection \<open>The name of a box\<close>

text \<open>
  \<^verbatim>\<open>__repr__\<close> joins the \<^verbatim>\<open>repr\<close> of every attribute that is a parameter record, in the
  order of the instance dictionary. \<^verbatim>\<open>_md5\<close> digests it; the digest function is a
  parameter (\<^verbatim>\<open>hashlib.md5(...).hexdigest()\<close>).
\<close>

fun param_reprs :: "heap \<Rightarrow> (string \<times> pyobj) list \<Rightarrow> error + string list" where
  "param_reprs H [] = Inr []"
| "param_reprs H ((k, Ref a) # d) =
     (case H a of
        None \<Rightarrow> param_reprs H d
      | Some p \<Rightarrow>
          (case struct_repr p of
             Inl e \<Rightarrow> Inl e
           | Inr r \<Rightarrow> (case param_reprs H d of Inl e \<Rightarrow> Inl e | Inr rs \<Rightarrow> Inr (r # rs))))"
| "param_reprs H ((k, v) # d) = param_reprs H d"

definition os_name :: "oclass \<Rightarrow> ostate \<Rightarrow> error + string" where
  "os_name C s =
     (case os_getattr C s ''_name'' of
        Inl e \<Rightarrow> Inl e
      | Inr (Val (PStr n)) \<Rightarrow> Inr n
      | Inr v \<Rightarrow> Inl (TypeError ''_name''))"

definition os_repr :: "oclass \<Rightarrow> heap \<Rightarrow> ostate \<Rightarrow> error + string" where
  "os_repr C H s =
     (case os_name C s of
        Inl e \<Rightarrow> Inl e
      | Inr n \<Rightarrow>
          (case param_reprs H (o_dict s) of
             Inl e \<Rightarrow> Inl e
           | Inr rs \<Rightarrow> Inr (n @ ''('' @ join ''; '' rs @ '')'')))"

text \<open>\<^verbatim>\<open>OutputStruct.__hash__\<close> hands the string to \<^verbatim>\<open>hash\<close>.\<close>

definition os_hash_arg :: "oclass \<Rightarrow> heap \<Rightarrow> ostate \<Rightarrow> error + hashed" where
  "os_hash_arg C H s = (case os_repr C H s of Inl e \<Rightarrow> Inl e | Inr r \<Rightarrow> Inr (HStr r))"

text \<open>
  What the module reads from its surroundings: the digest function, the expanded
  \<^verbatim>\<open>config['boxdir']\<close>, the file system (\<^verbatim>\<open>path.exists\<close>, \<^verbatim>\<open>glob.glob\<close> and
  \<^verbatim>\<open>h5py.File\<close> opened for reading), and numpy's conversion of a value to the dtype
  of the array it is stored in. An HDF5 file is a list of groups; a group has datasets
  and attributes.
\<close>

record h5group =
  g_datasets :: "(string \<times> pyval list) list"
  g_attrs :: "(string \<times> pyval) list"

type_synonym h5file = "(string \<times> h5group) list"

record env =
  md5hex :: "string \<Rightarrow> string"
  boxdir :: string
  path_exists :: "string \<Rightarrow> bool"
  glob :: "string \<Rightarrow> string list"
  h5_open :: "string \<Rightarrow> h5file option"
  astype :: "string \<Rightarrow> pyval \<Rightarrow> pyval"

definition os_md5 :: "env \<Rightarrow> oclass \<Rightarrow> heap \<Rightarrow> ostate \<Rightarrow> error + string" where
  "os_md5 E C H s = (case os_repr C H s of Inl e \<Rightarrow> Inl e | Inr r \<Rightarrow> Inr (md5hex E r))"

text \<open>\<^verbatim>\<open>self.cosmo_params.RANDOM_SEED\<close>.\<close>

definition cosmo_seed :: "oclass \<Rightarrow> heap \<Rightarrow> ostate \<Rightarrow> error + pyval" where
  "cosmo_seed C H s =
     (case os_getattr C s ''cosmo_params'' of
        Inl e \<Rightarrow> Inl e
      | Inr (Ref a) \<Rightarrow>
          (case H a of
             Some p \<Rightarrow> py_getattr p ''RANDOM_SEED''
           | None \<Rightarrow> Inl (AttributeError ''RANDOM_SEED''))
      | Inr v \<Rightarrow> Inl (AttributeError ''RANDOM_SEED''))"

definition hashname :: "env \<Rightarrow> oclass \<Rightarrow> heap \<Rightarrow> ostate \<Rightarrow> error + string" where
  "hashname E C H s =
     (case os_name C s of
        Inl e \<Rightarrow> Inl e
      | Inr n \<Rightarrow>
          (case os_md5 E C H s of
             Inl e \<Rightarrow> Inl e
           | Inr h \<Rightarrow>
               (case cosmo_seed C H s of
                  Inl e \<Rightarrow> Inl e
                | Inr seed \<Rightarrow> Inr (n @ ''_'' @ h @ ''_r'' @ py_str seed @ ''.h5''))))"

subsection \<open>Finding a box in the cache\<close>

text \<open>
  \<^verbatim>\<open>os.path.join\<close> of two components (POSIX), and the truth value of an optional string
  (\<^verbatim>\<open>None\<close> and the empty string are false).
\<close>

definition path_join :: "string \<Rightarrow> string \<Rightarrow> string" where
  "path_join a b =
     (if startswith b ''/'' then b
      else if a = [] \<or> last a = CHR ''/'' then a @ b
      else a @ ''/'' @ b)"

fun truthy :: "string option \<Rightarrow> bool" where
  "truthy None = False"
| "truthy (Some x) = (x \<noteq> [])"

definition get_fname :: "env \<Rightarrow> oclass \<Rightarrow> heap \<Rightarrow> ostate \<Rightarrow> string option \<Rightarrow> string option
    \<Rightarrow> error + string" where
  "get_fname E C H s direc fname =
     (case (if truthy direc
            then (case fname of
                    Some f \<Rightarrow> (if f \<noteq> [] then Inr f else hashname E C H s)
                  | None \<Rightarrow> hashname E C H s)
            else hashname E C H s) of
        Inl e \<Rightarrow> Inl e
      | Inr fn \<Rightarrow>
          Inr (path_join (case direc of Some d \<Rightarrow> (if d \<noteq> [] then d else boxdir E)
                          | None \<Rightarrow> boxdir E) fn))"

text \<open>
  \<^verbatim>\<open>re.sub("r\d+\.", "r*.", f)\<close>: every leftmost non-overlapping occurrence of an
  \<open>r\<close>, one or more digits and a dot is replaced, anywhere in the path.
\<close>

definition is_digit :: "char \<Rightarrow> bool" where
  "is_digit c = (c \<in> set ''0123456789'')"

fun match_seed_at :: "string \<Rightarrow> string option" where
  "match_seed_at [] = None"
| "match_seed_at (c # cs) =
     (if c = CHR ''r''
      then (case dropWhile is_digit cs of
              [] \<Rightarrow> None
            | d # rest \<Rightarrow>
                (if takeWhile is_digit cs \<noteq> [] \<and> d = CHR ''.'' then Some rest else None))
      else None)"

lemma match_seed_at_shorter: "match_seed_at s = Some rest \<Longrightarrow> length rest < length s"
proof (cases s)
  case Nil
  then show "match_seed_at s = Some rest \<Longrightarrow> length rest < length s" by simp
next
  case (Cons c cs)
  assume m: "match_seed_at s = Some rest"
  have "length (dropWhile is_digit cs) \<le> length cs" by (rule length_dropWhile_le)
  with m Cons show "length rest < length s"
    by (auto split: if_splits list.splits)
qed

function sub_seed :: "string \<Rightarrow> string" where
  "sub_seed [] = []"
| "sub_seed (c # cs) =
     (case match_seed_at (c # cs) of
        Some rest \<Rightarrow> ''r*.'' @ sub_seed rest
      | None \<Rightarrow> c # sub_seed cs)"
  by pat_completeness auto
termination
  by (relation "measure length")
    (auto dest: match_seed_at_shorter simp del: match_seed_at.simps)

definition find_file_without_seed :: "env \<Rightarrow> string \<Rightarrow> string option" where
  "find_file_without_seed E f = (case glob E (sub_seed f) of [] \<Rightarrow> None | x # xs \<Rightarrow> Some x)"

text \<open>
  \<^verbatim>\<open>find_existing\<close>. The search of the given directory asks \<^verbatim>\<open>match_seed\<close> before it
  looks for a file of another seed; the search of the default directory does not.
\<close>

definition find_existing :: "env \<Rightarrow> oclass \<Rightarrow> heap \<Rightarrow> ostate \<Rightarrow> string option \<Rightarrow> string option
    \<Rightarrow> bool \<Rightarrow> error + string option" where
  "find_existing E C H s direc fname match_seed =
     (case (if direc \<noteq> None
            then (case (if fname \<noteq> None
                        then (case get_fname E C H s direc fname of
                                Inl e \<Rightarrow> Inl e
                              | Inr p \<Rightarrow> Inr (if path_exists E p then Some p else None))
                        else Inr None) of
                    Inl e \<Rightarrow> Inl e
                  | Inr (Some p) \<Rightarrow> Inr (Some p)
                  | Inr None \<Rightarrow>
                      (case get_fname E C H s direc None of
                         Inl e \<Rightarrow> Inl e
                       | Inr f \<Rightarrow>
                           (if path_exists E f then Inr (Some f)
                            else if \<not> match_seed
                            then (let f' = find_file_without_seed E f
                                  in if truthy f' then Inr f' else Inr None)
                            else Inr None)))
            else Inr None) of
        Inl e \<Rightarrow> Inl e
      | Inr (Some p) \<Rightarrow> Inr (Some p)
      | Inr None \<Rightarrow>
          (case get_fname E C H s None None of
             Inl e \<Rightarrow> Inl e
           | Inr f \<Rightarrow>
               (if path_exists E f then Inr (Some f)
                else (let f' = find_file_without_seed E f
                      in if truthy f' then Inr f' else Inr None))))"

definition exists :: "env \<Rightarrow> oclass \<Rightarrow> heap \<Rightarrow> ostate \<Rightarrow> string option \<Rightarrow> string option
    \<Rightarrow> bool \<Rightarrow> error + bool" where
  "exists E C H s direc fname match_seed =
     (case find_existing E C H s direc fname match_seed of
        Inl e \<Rightarrow> Inl e
      | Inr r \<Rightarrow> Inr (r \<noteq> None))"

subsection \<open>Reading a box back\<close>

text \<open>
  \<^verbatim>\<open>getattr(self, k)[...] = boxes[k][...]\<close> writes into the array the attribute holds,
  in place: the array keeps its dtype, to which the elements are converted, and its
  shape, to which the dataset is broadcast. Arrays have one dimension here, so a dataset
  fits when it is as long as the array or has one element, which is then repeated;
  another length raises \<^verbatim>\<open>ValueError\<close>. Then every attribute of the group is set on
  the instance, the seed found in the file is stored in the hidden attribute
  \<^verbatim>\<open>_RANDOM_SEED\<close> of \<^verbatim>\<open>cosmo_params\<close>, and \<^verbatim>\<open>filled\<close> is set. An exception leaves
  the store and the instance as they are at that point.
\<close>

definition broadcast :: "pyval list \<Rightarrow> nat \<Rightarrow> pyval list option" where
  "broadcast xs n =
     (if length xs = n then Some xs
      else if length xs = 1 then Some (replicate n (hd xs))
      else None)"

fun fill_arrays :: "env \<Rightarrow> oclass \<Rightarrow> (string \<times> pyval list) list \<Rightarrow> ostate
    \<Rightarrow> (error + unit) \<times> ostate" where
  "fill_arrays E C [] s = (Inr (), s)"
| "fill_arrays E C ((k, xs) # ds) s =
     (case os_getattr C s k of
        Inl e \<Rightarrow> (Inl e, s)
      | Inr (Array dt ys) \<Rightarrow>
          (case broadcast xs (length ys) of
             Some zs \<Rightarrow> fill_arrays E C ds (os_setattr s k (Array dt (map (astype E dt) zs)))
           | None \<Rightarrow> (Inl (ValueError ''could not broadcast input array''), s))
      | Inr v \<Rightarrow> (Inl (TypeError ''object does not support item assignment''), s))"

fun set_attrs :: "(string \<times> pyval) list \<Rightarrow> ostate \<Rightarrow> ostate" where
  "set_attrs [] s = s"
| "set_attrs ((k, v) # as) s = set_attrs as (os_setattr s k (Val v))"

definition stored_seed :: "h5file \<Rightarrow> error + pyval" where
  "stored_seed f =
     (case map_of f ''cosmo'' of
        None \<Rightarrow> Inl (KeyError ''cosmo'')
      | Some g \<Rightarrow>
          (case map_of (g_attrs g) ''RANDOM_SEED'' of
             None \<Rightarrow> Inl (KeyError ''RANDOM_SEED'')
           | Some v \<Rightarrow> Inr v))"

definition set_cosmo_seed :: "oclass \<Rightarrow> heap \<Rightarrow> ostate \<Rightarrow> pyval \<Rightarrow> error + heap" where
  "set_cosmo_seed C H s seed =
     (case os_getattr C s ''cosmo_params'' of
        Inl e \<Rightarrow> Inl e
      | Inr (Ref a) \<Rightarrow>
          (case H a of
             Some p \<Rightarrow>
               (case py_setattr p ''_RANDOM_SEED'' seed of
                  Inl e \<Rightarrow> Inl e
                | Inr p' \<Rightarrow> Inr (H(a \<mapsto> p')))
           | None \<Rightarrow> Inl (AttributeError ''_RANDOM_SEED''))
      | Inr v \<Rightarrow> Inl (AttributeError ''_RANDOM_SEED''))"

text \<open>
  \<^verbatim>\<open>f[self._name]\<close> sits under a bare \<^verbatim>\<open>except\<close>: a name that is no string, or no
  group of the file, gives the same \<^verbatim>\<open>IOError\<close>, whose message prints the name
  (the text printed for an array or a record is not modelled).
\<close>

fun obj_str :: "pyobj \<Rightarrow> string" where
  "obj_str (Val v) = py_str v"
| "obj_str (Array dt xs) = ''<array>''"
| "obj_str (Ref a) = ''<object>''"

definition read_file :: "env \<Rightarrow> oclass \<Rightarrow> heap \<Rightarrow> ostate \<Rightarrow> h5file
    \<Rightarrow> (error + unit) \<times> heap \<times> ostate" where
  "read_file E C H s f =
     (case os_getattr C s ''_name'' of
        Inl e \<Rightarrow> (Inl e, H, s)
      | Inr n \<Rightarrow>
          (case (case n of Val (PStr g) \<Rightarrow> map_of f g | _ \<Rightarrow> None) of
             None \<Rightarrow> (Inl (IOError (''There is no group '' @ obj_str n @ '' in the file'')), H, s)
           | Some boxes \<Rightarrow>
               (case fill_arrays E C (g_datasets boxes) s of
                  (Inl e, s1) \<Rightarrow> (Inl e, H, s1)
                | (Inr u, s1) \<Rightarrow>
                    (let s2 = set_attrs (g_attrs boxes) s1 in
                     case stored_seed f of
                       Inl e \<Rightarrow> (Inl e, H, s2)
                     | Inr seed \<Rightarrow>
                         (case set_cosmo_seed C H s2 seed of
                            Inl e \<Rightarrow> (Inl e, H, s2)
                          | Inr H' \<Rightarrow> (Inr (), H', os_setattr s2 ''filled'' (Val (PBool True))))))))"

definition read :: "env \<Rightarrow> oclass \<Rightarrow> heap \<Rightarrow> ostate \<Rightarrow> string option \<Rightarrow> string option \<Rightarrow> bool
    \<Rightarrow> (error + unit) \<times> heap \<times> ostate" where
  "read E C H s direc fname match_seed =
     (case find_existing E C H s direc fname match_seed of
        Inl e \<Rightarrow> (Inl e, H, s)
      | Inr None \<Rightarrow> (Inl (IOError ''No boxes exist for these cosmo and user parameters.''), H, s)
      | Inr (Some pth) \<Rightarrow>
          (case arrays_initialized C s of
             (Inl e, s1) \<Rightarrow> (Inl e, H, s1)
           | (Inr ok, s1) \<Rightarrow>
               (case (if \<not> ok then init_cstruct C H s1 else (Inr (), s1)) of
                  (Inl e, s2) \<Rightarrow> (Inl e, H, s2)
                | (Inr u, s2) \<Rightarrow>
                    (case h5_open E pth of
                       None \<Rightarrow> (Inl (IOError ''Unable to open file''), H, s2)
                     | Some f \<Rightarrow> read_file E C H s2 f))))"


definition pointer_names :: "oclass \<Rightarrow> string list" where
  "pointer_names C = map fst (filter (\<lambda>(f, t). t = Pointer) (oc_cfields C))"

text \<open>
  The parameter records of a box: the objects its attributes refer to, in the order of
  the instance dictionary.
\<close>

fun param_objs :: "heap \<Rightarrow> (string \<times> pyobj) list \<Rightarrow> sobj list" where
  "param_objs H [] = []"
| "param_objs H ((k, Ref a) # d) =
     (case H a of None \<Rightarrow> param_objs H d | Some p \<Rightarrow> p # param_objs H d)"
| "param_objs H ((k, v) # d) = param_objs H d"

text \<open>
  Two parameter records have the same identity when they are of one class and agree on
  every default that is not volatile.
\<close>

definition same_identity :: "sobj \<Rightarrow> sobj \<Rightarrow> bool" where
  "same_identity p q =
     (s_class p = s_class q \<and>
      list_all (\<lambda>k. volatile k \<or> py_getattr p k = py_getattr q k)
        (map fst (sc_defaults (s_class p))))"

text \<open>A list of results evaluated in order: the first exception, or all the values.\<close>

fun in_order :: "(error + 'a) list \<Rightarrow> error + 'a list" where
  "in_order [] = Inr []"
| "in_order (Inl e # xs) = Inl e"
| "in_order (Inr x # xs) = (case in_order xs of Inl e \<Rightarrow> Inl e | Inr ys \<Rightarrow> Inr (x # ys))"

fun is_IOError :: "error \<Rightarrow> bool" where
  "is_IOError (IOError m) = True"
| "is_IOError e = False"

definition not_found :: error where
  "not_found = IOError ''No boxes exist for these cosmo and user parameters.''"

definition demo_params :: sclass where
  "demo_params = \<lparr>sc_name = ''Demo'', sc_cname = None,
     sc_defaults = [(''a'', PInt 1), (''b'', PInt 2)], sc_props = (\<lambda>k. None),
     sc_cfields = [(''a'', Primitive), (''b'', Primitive)]\<rparr>"

definition demo_obj :: sobj where
  "demo_obj = \<lparr>s_class = demo_params,
     s_attrs = [''a'' \<mapsto> PInt 1, ''b'' \<mapsto> PInt 2],
     s_name = Some ''Demo'', s_strings = [],
     s_cstruct = Some (ffi_new [(''a'', Primitive), (''b'', Primitive)])\<rparr>"

text \<open>
  A class like the library's \<^verbatim>\<open>CosmoParams\<close>: the seed is a property backed by the
  hidden attribute \<^verbatim>\<open>_RANDOM_SEED\<close>. Two instances, equal but for the seed, at the
  addresses 0 and 1 of a store.
\<close>

definition cosmo_class :: sclass where
  "cosmo_class = \<lparr>sc_name = ''CosmoParams'', sc_cname = None,
     sc_defaults = [(''RANDOM_SEED'', PNone), (''SIGMA_8'', PFloat ''0.82'')],
     sc_props = (\<lambda>k. if k = ''RANDOM_SEED'' then Some (\<lambda>a. a ''_RANDOM_SEED'') else None),
     sc_cfields = [(''RANDOM_SEED'', Primitive), (''SIGMA_8'', Primitive)]\<rparr>"

definition cosmo_obj :: "int \<Rightarrow> sobj" where
  "cosmo_obj seed = \<lparr>s_class = cosmo_class,
     s_attrs = [''_RANDOM_SEED'' \<mapsto> PInt seed, ''SIGMA_8'' \<mapsto> PFloat ''0.82''],
     s_name = Some ''CosmoParams'', s_strings = [], s_cstruct = None\<rparr>"

text \<open>A class with a field name that is a prefix of another.\<close>

definition prefix_class :: sclass where
  "prefix_class = \<lparr>sc_name = ''Demo'', sc_cname = None,
     sc_defaults = [(''A'', PInt 1), (''A1'', PInt 2), (''RANDOM_SEED'', PInt 42)],
     sc_props = (\<lambda>k. None),
     sc_cfields = [(''A'', Primitive), (''A1'', Primitive), (''RANDOM_SEED'', Primitive)]\<rparr>"

definition prefix_obj :: sobj where
  "prefix_obj = \<lparr>s_class = prefix_class,
     s_attrs = [''A'' \<mapsto> PInt 1, ''A1'' \<mapsto> PInt 2, ''RANDOM_SEED'' \<mapsto> PInt 42],
     s_name = Some ''Demo'', s_strings = [], s_cstruct = None\<rparr>"

text \<open>
  A box like the library's \<^verbatim>\<open>InitialConditions\<close>, with one array and one scalar
  field, whose \<^verbatim>\<open>_init_arrays\<close> allocates the array; and the same class with an
  \<^verbatim>\<open>_init_arrays\<close> that allocates nothing. The instance is as the constructor leaves
  it, for the user parameters at address 0 and the cosmological parameters at address 1.
\<close>

definition user_class :: sclass where
  "user_class = \<lparr>sc_name = ''UserParams'', sc_cname = None,
     sc_defaults = [(''HII_DIM'', PInt 64)], sc_props = (\<lambda>k. None),
     sc_cfields = [(''HII_DIM'', Primitive)]\<rparr>"

definition user_obj :: sobj where
  "user_obj = \<lparr>s_class = user_class, s_attrs = [''HII_DIM'' \<mapsto> PInt 64],
     s_name = Some ''UserParams'', s_strings = [], s_cstruct = None\<rparr>"

definition box_heap :: "int \<Rightarrow> heap" where
  "box_heap seed = (\<lambda>a. if a = 0 then Some user_obj
                      else if a = 1 then Some (cosmo_obj seed) else None)"

definition box_class :: oclass where
  "box_class = \<lparr>oc_name = ''InitialConditions'', oc_attrs = [],
     oc_cfields = [(''density'', Pointer), (''mean'', Primitive)],
     oc_accepts = (\<lambda>k v. True),
     oc_init_arrays = Some (\<lambda>H s. Some (os_setattr s ''density''
        (Array ''float32'' [PFloat ''0.0'', PFloat ''0.0''])))\<rparr>"




definition box_state :: ostate where
  "box_state = \<lparr>o_dict = [(''user_params'', Ref 0), (''cosmo_params'', Ref 1),
       (''_name'', Val (PStr ''InitialConditions'')), (''_id'', Val (PStr ''InitialConditions'')),
       (''filled'', Val (PBool False))],
     o_cstruct = None\<rparr>"

text \<open>
  A file system given by the list of its files. \<^verbatim>\<open>glob\<close> matches a pattern in which
  \<open>*\<close> stands for any run of characters of one path component and \<open>?\<close> for one of
  them. The digest of these surroundings is the identity, the digest that tells the most
  names apart; the default directory is \<open>/cache\<close>; the values in the files are of the
  dtype of the arrays they are read into, so the conversion leaves them as they are.
\<close>

fun glob_match :: "string \<Rightarrow> string \<Rightarrow> bool" where
  "glob_match [] [] = True"
| "glob_match [] (c # cs) = False"
| "glob_match (p # ps) [] = (p = CHR ''*'' \<and> glob_match ps [])"
| "glob_match (p # ps) (c # cs) =
     (if p = CHR ''*'' then glob_match ps (c # cs) \<or> (c \<noteq> CHR ''/'' \<and> glob_match (p # ps) cs)
      else if p = CHR ''?'' then c \<noteq> CHR ''/'' \<and> glob_match ps cs
      else p = c \<and> glob_match ps cs)"

definition list_env :: "(string \<times> h5file) list \<Rightarrow> env" where
  "list_env files = \<lparr>md5hex = (\<lambda>r. r), boxdir = ''/cache'',
     path_exists = (\<lambda>p. p \<in> set (map fst files)),
     glob = (\<lambda>pat. filter (glob_match pat) (map fst files)),
     h5_open = map_of files, astype = (\<lambda>dt v. v)\<rparr>"




definition box_file :: h5file where
  "box_file = [(''cosmo'', \<lparr>g_datasets = [],
       g_attrs = [(''RANDOM_SEED'', PInt 1), (''SIGMA_8'', PFloat ''0.82'')]\<rparr>),
     (''user_params'', \<lparr>g_datasets = [], g_attrs = [(''HII_DIM'', PInt 64)]\<rparr>),
     (''InitialConditions'', \<lparr>g_datasets = [(''density'', [PFloat ''1.5'', PFloat ''2.5''])],
       g_attrs = [(''mean'', PFloat ''2.0'')]\<rparr>)]"

definition box_path :: "string \<Rightarrow> string \<Rightarrow> string" where
  "box_path dir seed = dir @
     ''/InitialConditions_InitialConditions(UserParams(HII_DIM:64); CosmoParams(SIGMA_8:0.82))_r''
     @ seed @ ''.h5''"

text \<open>The cosmological parameters with \<open>SIGMA_8\<close> given as the text \<open>0.82\<close>.\<close>

definition text_heap :: heap where
  "text_heap = (\<lambda>a. if a = 0 then Some user_obj
     else if a = 1 then Some ((cosmo_obj 1)\<lparr>s_attrs := (s_attrs (cosmo_obj 1))(''SIGMA_8'' \<mapsto> PStr ''0.82'')\<rparr>)
     else None)"


section \<open>Properties of parameter records\<close>

lemma struct_init_no_warning: "snd (struct_init C kw) = []"
  by (simp add: struct_init_def Let_def split: sum.splits)

lemma set_field_Inr:
  "set_field s k v = Inr s' \<Longrightarrow> s' = s\<lparr>s_attrs := (s_attrs s)(slot (s_class s) k \<mapsto> v)\<rparr>"
  by (auto simp: set_field_def py_setattr_def slot_def split: option.splits)

lemma set_field_Inl:
  "set_field s k v = Inl e \<Longrightarrow> e = AttributeError (CHR ''_'' # k) \<and> \<not> settable (s_class s) k"
  by (auto simp: set_field_def py_setattr_def settable_def split: option.splits)

lemma set_field_settable:
  "settable (s_class s) k \<Longrightarrow>
   set_field s k v = Inr (s\<lparr>s_attrs := (s_attrs s)(slot (s_class s) k \<mapsto> v)\<rparr>)"
  by (auto simp: set_field_def py_setattr_def settable_def slot_def split: option.splits)

lemma map_of_pop_key: "map_of (pop_key k kw) k' = (if k' = k then None else map_of kw k')"
  by (induction kw) (auto simp: pop_key_def)

lemma pop_key_absent: "map_of kw k = None \<Longrightarrow> pop_key k kw = kw"
  by (induction kw) (auto simp: pop_key_def)

lemma update_loop_frame:
  "update_loop ks kw s = (r, kw', s') \<Longrightarrow>
   s_class s' = s_class s \<and> s_name s' = s_name s \<and> s_strings s' = s_strings s \<and>
   s_cstruct s' = s_cstruct s"
proof (induction ks arbitrary: kw s)
  case Nil
  then show ?case by simp
next
  case (Cons k ks)
  show ?case
  proof (cases "map_of kw k")
    case None
    with Cons show ?thesis by simp
  next
    case (Some v)
    show ?thesis
    proof (cases "set_field s k v")
      case (Inl e)
      with Some Cons.prems show ?thesis by simp
    next
      case (Inr s1)
      from set_field_Inr [OF Inr] have s1: "s1 = s\<lparr>s_attrs := (s_attrs s)(slot (s_class s) k \<mapsto> v)\<rparr>" .
      from Some Inr Cons.prems have "update_loop ks (pop_key k kw) s1 = (r, kw', s')" by simp
      from Cons.IH [OF this] show ?thesis by (simp add: s1)
    qed
  qed
qed

lemma update_loop_untouched:
  "update_loop ks kw s = (r, kw', s') \<Longrightarrow>
   (\<And>k. k \<in> set ks \<Longrightarrow> map_of kw k \<noteq> None \<Longrightarrow> slot (s_class s) k \<noteq> n) \<Longrightarrow>
   s_attrs s' n = s_attrs s n"
proof (induction ks arbitrary: kw s)
  case Nil
  then show ?case by simp
next
  case (Cons k ks)
  show ?case
  proof (cases "map_of kw k")
    case None
    with Cons.prems have "update_loop ks kw s = (r, kw', s')" by simp
    then show ?thesis using Cons.prems(2) by (intro Cons.IH) auto
  next
    case (Some v)
    show ?thesis
    proof (cases "set_field s k v")
      case (Inl e)
      with Some Cons.prems show ?thesis by simp
    next
      case (Inr s1)
      from set_field_Inr [OF Inr] have s1: "s1 = s\<lparr>s_attrs := (s_attrs s)(slot (s_class s) k \<mapsto> v)\<rparr>" .
      from Some Inr Cons.prems have run: "update_loop ks (pop_key k kw) s1 = (r, kw', s')" by simp
      have "s_attrs s' n = s_attrs s1 n"
      proof (rule Cons.IH [OF run])
        fix k' assume "k' \<in> set ks" "map_of (pop_key k kw) k' \<noteq> None"
        then have "k' \<in> set (k # ks)" "map_of kw k' \<noteq> None"
          by (auto simp: map_of_pop_key split: if_splits)
        from Cons.prems(2) [OF this] show "slot (s_class s1) k' \<noteq> n" by (simp add: s1)
      qed
      moreover have "slot (s_class s) k \<noteq> n" using Cons.prems(2) [of k] Some by simp
      ultimately show ?thesis by (simp add: s1)
    qed
  qed
qed

lemma update_loop_applied:
  "update_loop ks kw s = (Inr (), kw', s') \<Longrightarrow> k \<in> set ks \<Longrightarrow> map_of kw k = Some v \<Longrightarrow>
   (\<And>k'. k' \<in> set ks \<Longrightarrow> k' \<noteq> k \<Longrightarrow> map_of kw k' \<noteq> None \<Longrightarrow>
      slot (s_class s) k' \<noteq> slot (s_class s) k) \<Longrightarrow>
   s_attrs s' (slot (s_class s) k) = Some v"
proof (induction ks arbitrary: kw s)
  case Nil
  then show ?case by simp
next
  case (Cons k0 ks)
  show ?case
  proof (cases "map_of kw k0")
    case None
    with Cons.prems have run: "update_loop ks kw s = (Inr (), kw', s')" and "k \<in> set ks"
      by auto
    then show ?thesis using Cons.prems(3,4) by (intro Cons.IH) auto
  next
    case (Some v0)
    show ?thesis
    proof (cases "set_field s k0 v0")
      case (Inl e)
      with Some Cons.prems show ?thesis by simp
    next
      case (Inr s1)
      from set_field_Inr [OF Inr] have s1: "s1 = s\<lparr>s_attrs := (s_attrs s)(slot (s_class s) k0 \<mapsto> v0)\<rparr>" .
      from Some Inr Cons.prems have run: "update_loop ks (pop_key k0 kw) s1 = (Inr (), kw', s')" by simp
      show ?thesis
      proof (cases "k0 = k")
        case True
        have "s_attrs s' (slot (s_class s) k) = s_attrs s1 (slot (s_class s) k)"
        proof (rule update_loop_untouched [OF run])
          fix k' assume a: "k' \<in> set ks" "map_of (pop_key k0 kw) k' \<noteq> None"
          then have "k' \<noteq> k" "map_of kw k' \<noteq> None"
            by (auto simp: map_of_pop_key True split: if_splits)
          with a Cons.prems(4) [of k'] show "slot (s_class s1) k' \<noteq> slot (s_class s) k"
            by (simp add: s1)
        qed
        with True Some Cons.prems(3) show ?thesis by (simp add: s1)
      next
        case False
        with Cons.prems have "k \<in> set ks" by simp
        moreover have "map_of (pop_key k0 kw) k = Some v"
          using False Cons.prems(3) by (simp add: map_of_pop_key)
        moreover have "\<And>k'. k' \<in> set ks \<Longrightarrow> k' \<noteq> k \<Longrightarrow> map_of (pop_key k0 kw) k' \<noteq> None \<Longrightarrow>
            slot (s_class s1) k' \<noteq> slot (s_class s1) k"
          using Cons.prems(4) by (auto simp: s1 map_of_pop_key split: if_splits)
        ultimately have "s_attrs s' (slot (s_class s1) k) = Some v"
          by (rule Cons.IH [OF run])
        then show ?thesis by (simp add: s1)
      qed
    qed
  qed
qed

lemma filter_pop_key:
  "filter (\<lambda>(k', v). k' \<notin> set ks) (pop_key k kw) = filter (\<lambda>(k', v). k' \<notin> set (k # ks)) kw"
  by (induction kw) (auto simp: pop_key_def)

lemma update_loop_leftover:
  "update_loop ks kw s = (Inr (), kw', s') \<Longrightarrow> kw' = filter (\<lambda>(k, v). k \<notin> set ks) kw"
proof (induction ks arbitrary: kw s)
  case Nil
  then show ?case by simp
next
  case (Cons k ks)
  show ?case
  proof (cases "map_of kw k")
    case None
    with Cons.prems have "update_loop ks kw s = (Inr (), kw', s')" by simp
    from Cons.IH [OF this] have "kw' = filter (\<lambda>(k', v). k' \<notin> set ks) (pop_key k kw)"
      by (simp add: pop_key_absent [OF None])
    then show ?thesis by (simp only: filter_pop_key)
  next
    case (Some v)
    show ?thesis
    proof (cases "set_field s k v")
      case (Inl e)
      with Some Cons.prems show ?thesis by simp
    next
      case (Inr s1)
      with Some Cons.prems have "update_loop ks (pop_key k kw) s1 = (Inr (), kw', s')" by simp
      from Cons.IH [OF this] have "kw' = filter (\<lambda>(k', v). k' \<notin> set ks) (pop_key k kw)" .
      then show ?thesis by (simp only: filter_pop_key)
    qed
  qed
qed

lemma update_loop_succeeds:
  "list_all (settable (s_class s)) ks \<Longrightarrow> fst (update_loop ks kw s) = Inr ()"
proof (induction ks arbitrary: kw s)
  case Nil
  then show ?case by simp
next
  case (Cons k ks)
  then show ?case
    by (cases "map_of kw k") (simp_all add: set_field_settable)
qed

lemma update_loop_raises_AttributeError:
  "update_loop ks kw s = (Inl e, kw', s') \<Longrightarrow> \<exists>m. e = AttributeError m"
proof (induction ks arbitrary: kw s)
  case Nil
  then show ?case by simp
next
  case (Cons k ks)
  then show ?case
    by (auto split: option.splits sum.splits dest: set_field_Inl)
qed

lemma update_loop_agree:
  "(\<And>k. k \<in> set ks \<Longrightarrow> map_of kw k = map_of kw2 k) \<Longrightarrow>
   fst (update_loop ks kw s) = fst (update_loop ks kw2 s) \<and>
   snd (snd (update_loop ks kw s)) = snd (snd (update_loop ks kw2 s))"
proof (induction ks arbitrary: kw kw2 s)
  case Nil
  then show ?case by simp
next
  case (Cons k ks)
  have eq: "map_of kw2 k = map_of kw k" using Cons.prems by simp
  show ?case
  proof (cases "map_of kw k")
    case None
    moreover from None eq have "map_of kw2 k = None" by simp
    moreover have "\<And>k'. k' \<in> set ks \<Longrightarrow> map_of kw k' = map_of kw2 k'"
      using Cons.prems by simp
    from Cons.IH [OF this] have "fst (update_loop ks kw s) = fst (update_loop ks kw2 s) \<and>
      snd (snd (update_loop ks kw s)) = snd (snd (update_loop ks kw2 s))" .
    ultimately show ?thesis by simp
  next
    case (Some v)
    from Some eq have Some2: "map_of kw2 k = Some v" by simp
    show ?thesis
    proof (cases "set_field s k v")
      case (Inl e)
      with Some Some2 show ?thesis by simp
    next
      case (Inr s1)
      have "\<And>k'. k' \<in> set ks \<Longrightarrow> map_of (pop_key k kw) k' = map_of (pop_key k kw2) k'"
        using Cons.prems by (simp add: map_of_pop_key)
      from Cons.IH [OF this]
      have "fst (update_loop ks (pop_key k kw) s1) = fst (update_loop ks (pop_key k kw2) s1) \<and>
        snd (snd (update_loop ks (pop_key k kw) s1)) = snd (snd (update_loop ks (pop_key k kw2) s1))" .
      with Some Some2 Inr show ?thesis by simp
    qed
  qed
qed

lemma map_of_recognized:
  "k \<in> set (map fst (sc_defaults C)) \<Longrightarrow> map_of (recognized C kw) k = map_of kw k"
  by (induction kw) (auto simp: recognized_def simp del: set_map)

lemma init_loop_agree:
  "(\<And>k. k \<in> fst ` set ds \<Longrightarrow> map_of kw k = map_of kw2 k) \<Longrightarrow>
   init_loop ds kw s = init_loop ds kw2 s"
proof (induction ds arbitrary: s)
  case Nil
  then show ?case by simp
next
  case (Cons d ds)
  obtain k v where d: "d = (k, v)" by (cases d)
  have "map_of kw k = map_of kw2 k" using Cons.prems by (simp add: d)
  moreover have "\<And>s'. init_loop ds kw s' = init_loop ds kw2 s'"
    using Cons.prems by (intro Cons.IH) simp
  ultimately show ?case by (simp add: d split: sum.splits)
qed

lemma init_loop_frame:
  "init_loop ds kw s = Inr s' \<Longrightarrow>
   s_class s' = s_class s \<and> s_name s' = s_name s \<and> s_strings s' = s_strings s \<and>
   s_cstruct s' = s_cstruct s \<and>
   (\<forall>n. n \<notin> slot (s_class s) ` fst ` set ds \<longrightarrow> s_attrs s' n = s_attrs s n)"
proof (induction ds arbitrary: s)
  case Nil
  then show ?case by simp
next
  case (Cons d ds)
  obtain k v where d: "d = (k, v)" by (cases d)
  define w where "w = (case map_of kw k of Some v' \<Rightarrow> v' | None \<Rightarrow> v)"
  show ?case
  proof (cases "set_field s k w")
    case (Inl e)
    with Cons.prems show ?thesis by (simp add: d w_def)
  next
    case (Inr s1)
    from set_field_Inr [OF Inr] have s1: "s1 = s\<lparr>s_attrs := (s_attrs s)(slot (s_class s) k \<mapsto> w)\<rparr>" .
    from Inr Cons.prems have "init_loop ds kw s1 = Inr s'" by (simp add: d w_def)
    from Cons.IH [OF this] show ?thesis by (auto simp: s1 d)
  qed
qed

lemma init_loop_succeeds:
  "list_all (settable (s_class s)) (map fst ds) \<Longrightarrow> \<exists>s'. init_loop ds kw s = Inr s'"
proof (induction ds arbitrary: s)
  case Nil
  then show ?case by simp
next
  case (Cons d ds)
  obtain k v where d: "d = (k, v)" by (cases d)
  from Cons.prems have "settable (s_class s) k" by (simp add: d)
  note sf = set_field_settable [OF this]
  have "\<exists>s'. init_loop ds kw (s\<lparr>s_attrs := (s_attrs s)
      (slot (s_class s) k \<mapsto> (case map_of kw k of Some v' \<Rightarrow> v' | None \<Rightarrow> v))\<rparr>) = Inr s'"
    using Cons.prems by (intro Cons.IH) (simp add: d)
  then show ?case by (simp add: d sf)
qed

lemma map_of_recognized_fst:
  "k \<in> fst ` set (sc_defaults C) \<Longrightarrow> map_of (recognized C kw) k = map_of kw k"
  using map_of_recognized [of k C kw] by simp

text \<open>
  Claim C9. The constructor silently ignores keyword arguments that are not in the
  class's defaults: the call has the same result as the call with those keywords left
  out (so they cause no error), it emits no warning, and on the instance it returns no
  attribute exists but the ones the defaults are stored under (a default \<open>k\<close> is
  stored under \<open>k\<close>, or under \<open>_k\<close> where the class defines \<open>k\<close> as a property).
  For a class whose defaults can all be stored the constructor returns an instance.
\<close>

theorem init_ignores_unknown_keywords:
  "struct_init C kw = struct_init C (recognized C kw) \<and>
   snd (struct_init C kw) = [] \<and>
   (\<forall>s n. fst (struct_init C kw) = Inr s \<and> n \<notin> slot C ` set (map fst (sc_defaults C))
      \<longrightarrow> s_attrs s n = None) \<and>
   (constructible C \<longrightarrow> (\<exists>s. fst (struct_init C kw) = Inr s))"
proof (intro conjI allI impI)
  have "init_loop (sc_defaults C) kw (new_sobj C) =
        init_loop (sc_defaults C) (recognized C kw) (new_sobj C)"
    by (rule init_loop_agree) (simp add: map_of_recognized_fst)
  then show "struct_init C kw = struct_init C (recognized C kw)"
    by (simp add: struct_init_def)
next
  show "snd (struct_init C kw) = []" by (rule struct_init_no_warning)
next
  fix s n
  assume a: "fst (struct_init C kw) = Inr s \<and> n \<notin> slot C ` set (map fst (sc_defaults C))"
  then obtain s1 where run: "init_loop (sc_defaults C) kw (new_sobj C) = Inr s1"
    by (cases "init_loop (sc_defaults C) kw (new_sobj C)") (auto simp: struct_init_def)
  from init_loop_frame [OF run] a have "s_attrs s1 n = None"
    by (simp add: new_sobj_def)
  moreover from a run have "s_attrs s = s_attrs s1"
    by (auto simp: struct_init_def Let_def logic_def)
  ultimately show "s_attrs s n = None" by simp
next
  assume "constructible C"
  then have "list_all (settable (s_class (new_sobj C))) (map fst (sc_defaults C))"
    by (simp add: constructible_def new_sobj_def)
  from init_loop_succeeds [OF this] obtain s1
    where "init_loop (sc_defaults C) kw (new_sobj C) = Inr s1" by blast
  then show "\<exists>s. fst (struct_init C kw) = Inr s"
    by (simp add: struct_init_def Let_def)
qed


lemma update_result:
  assumes run: "update s kw = (r, s', ws)"
    and ok: "constructible (s_class s)"
  shows "ws = (if rejected (s_class s) kw = [] then [] else [Incompatible (rejected (s_class s) kw)])"
    and "r = (if s_cstruct s = None then Inl (AttributeError ''_StructWithDefaults__cstruct'') else Inr ())"
    and "s_strings s' = []" and "s_class s' = s_class s"
    and "\<And>k v. k \<in> set (map fst (sc_defaults (s_class s))) \<Longrightarrow> map_of kw k = Some v \<Longrightarrow>
          (\<And>k'. k' \<in> set (map fst (sc_defaults (s_class s))) \<Longrightarrow> k' \<noteq> k \<Longrightarrow> map_of kw k' \<noteq> None \<Longrightarrow>
               slot (s_class s) k' \<noteq> slot (s_class s) k) \<Longrightarrow>
          s_attrs s' (slot (s_class s) k) = Some v"
    and "\<And>n. (\<And>k. k \<in> set (map fst (sc_defaults (s_class s))) \<Longrightarrow> map_of kw k \<noteq> None \<Longrightarrow>
               slot (s_class s) k \<noteq> n) \<Longrightarrow> s_attrs s' n = s_attrs s n"
proof -
  let ?ks = "map fst (sc_defaults (s_class s))"
  obtain r1 kw1 s1 where loop: "update_loop ?ks kw s = (r1, kw1, s1)"
    by (cases "update_loop ?ks kw s") auto
  from ok have "fst (update_loop ?ks kw s) = Inr ()"
    unfolding constructible_def by (rule update_loop_succeeds)
  with loop have r1: "r1 = Inr ()" by simp
  from update_loop_leftover [OF loop [unfolded r1]]
  have kw1: "kw1 = rejected (s_class s) kw" by (simp add: rejected_def)
  note fr = update_loop_frame [OF loop]
  from run loop r1 kw1 fr
  show "ws = (if rejected (s_class s) kw = [] then [] else [Incompatible (rejected (s_class s) kw)])"
    by (auto simp: update_def Let_def logic_def split: option.splits)
  from run loop r1 fr
  show "r = (if s_cstruct s = None then Inl (AttributeError ''_StructWithDefaults__cstruct'') else Inr ())"
    by (auto simp: update_def Let_def logic_def split: option.splits)
  from run loop r1 show "s_strings s' = []"
    by (auto simp: update_def Let_def logic_def split: option.splits)
  from run loop r1 fr show "s_class s' = s_class s"
    by (auto simp: update_def Let_def logic_def split: option.splits)
  from run loop r1 have at: "s_attrs s' = s_attrs s1"
    by (auto simp: update_def Let_def logic_def split: option.splits)
  {
    fix k v
    assume "k \<in> set ?ks" "map_of kw k = Some v"
      "\<And>k'. k' \<in> set ?ks \<Longrightarrow> k' \<noteq> k \<Longrightarrow> map_of kw k' \<noteq> None \<Longrightarrow>
               slot (s_class s) k' \<noteq> slot (s_class s) k"
    with update_loop_applied [OF loop [unfolded r1]]
    show "s_attrs s' (slot (s_class s) k) = Some v" by (simp add: at)
  }
  {
    fix n
    assume "\<And>k. k \<in> set ?ks \<Longrightarrow> map_of kw k \<noteq> None \<Longrightarrow> slot (s_class s) k \<noteq> n"
    with update_loop_untouched [OF loop]
    show "s_attrs s' n = s_attrs s n" by (simp add: at)
  }
qed

lemma update_recognized_only:
  "fst (update s kw) = fst (update s (recognized (s_class s) kw)) \<and>
   fst (snd (update s kw)) = fst (snd (update s (recognized (s_class s) kw)))"
proof -
  let ?ks = "map fst (sc_defaults (s_class s))"
  let ?kw2 = "recognized (s_class s) kw"
  have ag: "fst (update_loop ?ks kw s) = fst (update_loop ?ks ?kw2 s) \<and>
    snd (snd (update_loop ?ks kw s)) = snd (snd (update_loop ?ks ?kw2 s))"
    by (rule update_loop_agree) (simp add: map_of_recognized)
  obtain r1 kw1 s1 where l1: "update_loop ?ks kw s = (r1, kw1, s1)"
    by (cases "update_loop ?ks kw s") auto
  obtain r2 kw2 s2 where l2: "update_loop ?ks ?kw2 s = (r2, kw2, s2)"
    by (cases "update_loop ?ks ?kw2 s") auto
  from ag l1 l2 have "r2 = r1" "s2 = s1" by simp_all
  with l1 l2 show ?thesis
    by (cases r1) (simp_all add: update_def Let_def split: option.splits)
qed

lemma update_raises_AttributeError_only:
  "fst (update s kw) = Inl e \<Longrightarrow> \<exists>m. e = AttributeError m"
proof -
  assume a: "fst (update s kw) = Inl e"
  let ?ks = "map fst (sc_defaults (s_class s))"
  obtain r1 kw1 s1 where l1: "update_loop ?ks kw s = (r1, kw1, s1)"
    by (cases "update_loop ?ks kw s") auto
  show ?thesis
  proof (cases r1)
    case (Inl e1)
    with l1 a have "e = e1" by (simp add: update_def)
    with update_loop_raises_AttributeError [OF l1 [unfolded Inl]] show ?thesis by simp
  next
    case (Inr u)
    with l1 a show ?thesis
      by (auto simp: update_def Let_def split: option.splits)
  qed
qed


lemma demo_init: "fst (struct_init demo_params []) = Inr (demo_obj\<lparr>s_cstruct := None\<rparr>)"
  by (simp add: struct_init_def demo_params_def demo_obj_def new_sobj_def set_field_def
      py_setattr_def logic_def struct_name_def Let_def)

lemma demo_cstruct:
  "snd (struct_cstruct (demo_obj\<lparr>s_cstruct := None\<rparr>)) = demo_obj"
  by (simp add: struct_cstruct_def demo_obj_def demo_params_def Let_def)

theorem init_ignores_unknown_keywords_witness:
  "struct_init demo_params [(''a'', PInt 5), (''z'', PInt 9)] = struct_init demo_params [(''a'', PInt 5)] \<and>
   snd (struct_init demo_params [(''a'', PInt 5), (''z'', PInt 9)]) = [] \<and>
   constructible demo_params \<and>
   (\<exists>s. fst (struct_init demo_params [(''a'', PInt 5), (''z'', PInt 9)]) = Inr s \<and>
        py_getattr s ''a'' = Inr (PInt 5) \<and> py_getattr s ''b'' = Inr (PInt 2) \<and>
        s_attrs s ''z'' = None)"
proof -
  let ?kw = "[(''a'', PInt 5), (''z'', PInt 9)]"
  note th = init_ignores_unknown_keywords [of demo_params ?kw]
  have rec: "recognized demo_params ?kw = [(''a'', PInt 5)]"
    by (simp add: recognized_def demo_params_def)
  have c: "constructible demo_params"
    by (simp add: constructible_def settable_def demo_params_def)
  with th obtain s where s: "fst (struct_init demo_params ?kw) = Inr s" by blast
  have "''z'' \<notin> slot demo_params ` set (map fst (sc_defaults demo_params))"
    by (simp add: slot_def demo_params_def)
  with th s have z: "s_attrs s ''z'' = None" by blast
  from s have "py_getattr s ''a'' = Inr (PInt 5)" "py_getattr s ''b'' = Inr (PInt 2)"
    by (auto simp: struct_init_def demo_params_def new_sobj_def set_field_def
        py_setattr_def py_getattr_def logic_def struct_name_def Let_def)
  with th rec c s z show ?thesis by auto
qed

text \<open>
  Claim C4. An \<^verbatim>\<open>update\<close> whose keywords include names outside the defaults emits one
  warning that lists exactly the rejected keywords; what it raises and the instance it
  leaves are those of the same call without the rejected keywords, and it returns
  normally when the C structure had been made; every recognized keyword's value is
  stored (under the name the default is stored under, unless another recognized keyword
  of the call is stored under that same name); and every attribute that no recognized
  keyword of the call is stored under keeps its value.
\<close>

theorem update_unrecognized_keywords:
  assumes "constructible (s_class s)"
    and "rejected (s_class s) kw \<noteq> []"
    and "update s kw = (r, s', ws)"
  shows "ws = [Incompatible (rejected (s_class s) kw)] \<and>
    r = fst (update s (recognized (s_class s) kw)) \<and>
    s' = fst (snd (update s (recognized (s_class s) kw))) \<and>
    (s_cstruct s \<noteq> None \<longrightarrow> r = Inr ()) \<and>
    (\<forall>k v. k \<in> set (map fst (sc_defaults (s_class s))) \<and> map_of kw k = Some v \<and>
        (\<forall>k' \<in> set (map fst (sc_defaults (s_class s))).
           k' \<noteq> k \<and> map_of kw k' \<noteq> None \<longrightarrow> slot (s_class s) k' \<noteq> slot (s_class s) k)
       \<longrightarrow> s_attrs s' (slot (s_class s) k) = Some v) \<and>
    (\<forall>n. (\<forall>k \<in> set (map fst (sc_defaults (s_class s))).
             map_of kw k \<noteq> None \<longrightarrow> slot (s_class s) k \<noteq> n)
       \<longrightarrow> s_attrs s' n = s_attrs s n)"
proof -
  note res = update_result [OF assms(3) assms(1)]
  from res(1) assms(2) have "ws = [Incompatible (rejected (s_class s) kw)]" by simp
  moreover from update_recognized_only [of s kw] assms(3)
  have "r = fst (update s (recognized (s_class s) kw))"
    "s' = fst (snd (update s (recognized (s_class s) kw)))" by simp_all
  moreover from res(2) have "s_cstruct s \<noteq> None \<longrightarrow> r = Inr ()" by simp
  moreover from res(5) have "\<forall>k v. k \<in> set (map fst (sc_defaults (s_class s))) \<and> map_of kw k = Some v \<and>
        (\<forall>k' \<in> set (map fst (sc_defaults (s_class s))).
           k' \<noteq> k \<and> map_of kw k' \<noteq> None \<longrightarrow> slot (s_class s) k' \<noteq> slot (s_class s) k)
       \<longrightarrow> s_attrs s' (slot (s_class s) k) = Some v" by blast
  moreover from res(6) have "\<forall>n. (\<forall>k \<in> set (map fst (sc_defaults (s_class s))).
             map_of kw k \<noteq> None \<longrightarrow> slot (s_class s) k \<noteq> n)
       \<longrightarrow> s_attrs s' n = s_attrs s n" by blast
  ultimately show ?thesis by blast
qed

theorem update_unrecognized_keywords_witness:
  "constructible (s_class demo_obj) \<and>
   rejected (s_class demo_obj) [(''a'', PInt 5), (''z'', PInt 9)] = [(''z'', PInt 9)] \<and>
   (\<exists>s'. update demo_obj [(''a'', PInt 5), (''z'', PInt 9)] =
            (Inr (), s', [Incompatible [(''z'', PInt 9)]]) \<and>
         py_getattr s' ''a'' = Inr (PInt 5) \<and> py_getattr s' ''b'' = Inr (PInt 2) \<and>
         s_attrs s' ''z'' = None)"
proof -
  let ?kw = "[(''a'', PInt 5), (''z'', PInt 9)]"
  have cls: "s_class demo_obj = demo_params" by (simp add: demo_obj_def)
  have ks: "map fst (sc_defaults demo_params) = [''a'', ''b'']" by (simp add: demo_params_def)
  have sl: "\<And>k. slot demo_params k = k" by (simp add: slot_def demo_params_def)
  have c: "constructible (s_class demo_obj)"
    by (simp add: cls constructible_def settable_def demo_params_def)
  have rj: "rejected (s_class demo_obj) ?kw = [(''z'', PInt 9)]"
    by (simp add: cls rejected_def demo_params_def)
  then have rj': "rejected (s_class demo_obj) ?kw \<noteq> []" by simp
  obtain r s' ws where u: "update demo_obj ?kw = (r, s', ws)"
    by (cases "update demo_obj ?kw") auto
  note th = update_unrecognized_keywords [OF c rj' u]
  note th_warn = th [THEN conjunct1]
  note th_ret = th [THEN conjunct2, THEN conjunct2, THEN conjunct2, THEN conjunct1]
  note th_set = th [THEN conjunct2, THEN conjunct2, THEN conjunct2, THEN conjunct2,
      THEN conjunct1, rule_format]
  note th_keep = th [THEN conjunct2, THEN conjunct2, THEN conjunct2, THEN conjunct2,
      THEN conjunct2, rule_format]
  from th_warn rj have ws: "ws = [Incompatible [(''z'', PInt 9)]]" by simp
  from th_ret have r: "r = Inr ()" by (simp add: demo_obj_def)
  have "s_attrs s' (slot (s_class demo_obj) ''a'') = Some (PInt 5)"
    by (rule th_set) (auto simp: cls ks sl split: if_splits)
  then have a: "s_attrs s' ''a'' = Some (PInt 5)" by (simp add: cls sl)
  have "s_attrs s' ''b'' = s_attrs demo_obj ''b''"
    by (rule th_keep) (auto simp: cls ks sl split: if_splits)
  then have b: "s_attrs s' ''b'' = Some (PInt 2)" by (simp add: demo_obj_def)
  have "s_attrs s' ''z'' = s_attrs demo_obj ''z''"
    by (rule th_keep) (auto simp: cls ks sl split: if_splits)
  then have z: "s_attrs s' ''z'' = None" by (simp add: demo_obj_def)
  from update_result(4) [OF u c] have cl: "s_class s' = demo_params" by (simp add: cls)
  have "py_getattr s' ''a'' = Inr (PInt 5)" "py_getattr s' ''b'' = Inr (PInt 2)"
    using a b cl by (simp_all add: py_getattr_def demo_params_def)
  with c rj u ws r z show ?thesis by simp
qed

text \<open>
  Claim C10. When the private attribute \<^verbatim>\<open>_StructWithDefaults__cstruct\<close> does not
  exist, every \<^verbatim>\<open>update\<close> raises \<^verbatim>\<open>AttributeError\<close>. For an instance of a class
  whose defaults can all be stored (every instance the constructor returns), the error is
  the one of the final \<^verbatim>\<open>delattr\<close>, and it comes after the effects of the call: the
  warning about rejected keywords has been emitted, \<^verbatim>\<open>_strings\<close> has been reset and
  the recognized keywords' values have been stored, so the call is not atomic.
\<close>

theorem update_without_cstruct_raises:
  assumes "s_cstruct s = None" and "update s kw = (r, s', ws)"
  shows "(\<exists>m. r = Inl (AttributeError m)) \<and>
    (constructible (s_class s) \<longrightarrow>
       r = Inl (AttributeError ''_StructWithDefaults__cstruct'') \<and>
       ws = (if rejected (s_class s) kw = [] then [] else [Incompatible (rejected (s_class s) kw)]) \<and>
       s_strings s' = [] \<and>
       (\<forall>k v. k \<in> set (map fst (sc_defaults (s_class s))) \<and> map_of kw k = Some v \<and>
          (\<forall>k' \<in> set (map fst (sc_defaults (s_class s))).
             k' \<noteq> k \<and> map_of kw k' \<noteq> None \<longrightarrow> slot (s_class s) k' \<noteq> slot (s_class s) k)
         \<longrightarrow> s_attrs s' (slot (s_class s) k) = Some v))"
proof (intro conjI impI)
  let ?ks = "map fst (sc_defaults (s_class s))"
  obtain r1 kw1 s1 where loop: "update_loop ?ks kw s = (r1, kw1, s1)"
    by (cases "update_loop ?ks kw s") auto
  from update_loop_frame [OF loop] assms(1) have "s_cstruct s1 = None" by simp
  with loop assms(2) obtain e where "r = Inl e"
    by (cases r1) (auto simp: update_def Let_def logic_def)
  with update_raises_AttributeError_only [of s kw e] assms(2)
  show "\<exists>m. r = Inl (AttributeError m)" by simp
next
  assume c: "constructible (s_class s)"
  note res = update_result [OF assms(2) c]
  from res(2) assms(1) show "r = Inl (AttributeError ''_StructWithDefaults__cstruct'')" by simp
  from res(1) show "ws = (if rejected (s_class s) kw = [] then []
      else [Incompatible (rejected (s_class s) kw)])" .
  from res(3) show "s_strings s' = []" .
  from res(5) show "\<forall>k v. k \<in> set (map fst (sc_defaults (s_class s))) \<and> map_of kw k = Some v \<and>
          (\<forall>k' \<in> set (map fst (sc_defaults (s_class s))).
             k' \<noteq> k \<and> map_of kw k' \<noteq> None \<longrightarrow> slot (s_class s) k' \<noteq> slot (s_class s) k)
         \<longrightarrow> s_attrs s' (slot (s_class s) k) = Some v" by blast
qed

theorem update_without_cstruct_raises_witness:
  "s_cstruct (demo_obj\<lparr>s_cstruct := None\<rparr>) = None \<and>
   constructible (s_class (demo_obj\<lparr>s_cstruct := None\<rparr>)) \<and>
   s_attrs (demo_obj\<lparr>s_cstruct := None\<rparr>) ''a'' = Some (PInt 1) \<and>
   (\<exists>s'. update (demo_obj\<lparr>s_cstruct := None\<rparr>) [(''a'', PInt 5)] =
            (Inl (AttributeError ''_StructWithDefaults__cstruct''), s', []) \<and>
         s_attrs s' ''a'' = Some (PInt 5))"
proof -
  let ?s = "demo_obj\<lparr>s_cstruct := None\<rparr>"
  let ?kw = "[(''a'', PInt 5)]"
  have cls: "s_class ?s = demo_params" by (simp add: demo_obj_def)
  have ks: "map fst (sc_defaults demo_params) = [''a'', ''b'']" by (simp add: demo_params_def)
  have sl: "\<And>k. slot demo_params k = k" by (simp add: slot_def demo_params_def)
  have n: "s_cstruct ?s = None" by simp
  have c: "constructible (s_class ?s)"
    by (simp add: cls constructible_def settable_def demo_params_def)
  have rj: "rejected (s_class ?s) ?kw = []"
    by (simp add: cls rejected_def demo_params_def)
  obtain r s' ws where u: "update ?s ?kw = (r, s', ws)"
    by (cases "update ?s ?kw") auto
  note th = update_without_cstruct_raises [OF n u, THEN conjunct2, rule_format, OF c]
  from th have r: "r = Inl (AttributeError ''_StructWithDefaults__cstruct'')" by blast
  from th [THEN conjunct2, THEN conjunct1] rj have ws: "ws = []" by simp
  have "s_attrs s' (slot (s_class ?s) ''a'') = Some (PInt 5)"
    by (rule th [THEN conjunct2, THEN conjunct2, THEN conjunct2, rule_format])
      (auto simp: cls ks sl split: if_splits)
  then have a: "s_attrs s' ''a'' = Some (PInt 5)" by (simp add: cls sl)
  have "s_attrs ?s ''a'' = Some (PInt 1)" by (simp add: demo_obj_def)
  with n c u r ws a show ?thesis by simp
qed

section \<open>The textual identity of a parameter record\<close>

lemma collect_fields_Inr:
  "collect_fields s ks = Inr d \<Longrightarrow>
   map fst d = ks \<and> list_all (\<lambda>(k, v). py_getattr s k = Inr v) d"
proof (induction ks arbitrary: d)
  case Nil
  then show ?case by auto
next
  case (Cons k ks)
  then show ?case by (auto split: sum.splits)
qed

lemma collect_fields_cong:
  "(\<And>k. k \<in> set ks \<Longrightarrow> py_getattr s k = py_getattr t k) \<Longrightarrow>
   collect_fields s ks = collect_fields t ks"
  by (induction ks) (auto split: sum.splits)

lemma struct_repr_cong:
  assumes "s_class s = s_class t"
    and "\<And>k. k \<in> set (map fst (sc_defaults (s_class s))) \<Longrightarrow> \<not> volatile k \<Longrightarrow>
           py_getattr s k = py_getattr t k"
  shows "struct_repr s = struct_repr t"
proof -
  have "defining_dict s = defining_dict t"
    unfolding defining_dict_def assms(1) [symmetric]
    by (rule collect_fields_cong) (use assms(2) in auto)
  then show ?thesis by (simp add: struct_repr_def assms(1) split: sum.splits)
qed

lemma struct_eq_repr:
  "struct_repr s = Inr a \<Longrightarrow> struct_repr t = Inr a \<Longrightarrow> struct_eq s t = Inr True"
  by (simp add: struct_eq_def)

text \<open>
  Claim C8, as the code has it. \<^verbatim>\<open>__repr__\<close> raises when a non-volatile field cannot
  be read. Otherwise it returns the class name followed, in parentheses, by the entries
  \<open>name:value\<close> of the non-volatile defaults (the names not starting with
  \<^verbatim>\<open>RANDOM_SEED\<close>, each with the value \<^verbatim>\<open>getattr\<close> gives), where the entries are sorted
  as strings and separated by a comma and a space.
\<close>

theorem struct_repr_canonical:
  "(\<forall>e. defining_dict s = Inl e \<longrightarrow> struct_repr s = Inl e) \<and>
   (\<forall>d. defining_dict s = Inr d \<longrightarrow>
      map fst d = filter (\<lambda>k. \<not> volatile k) (map fst (sc_defaults (s_class s))) \<and>
      list_all (\<lambda>(k, v). py_getattr s k = Inr v) d \<and>
      (\<exists>es. struct_repr s = Inr (sc_name (s_class s) @ ''('' @ join '', '' es @ '')'') \<and>
            sorted es \<and> mset es = image_mset render (mset d)))"
proof (intro conjI allI impI)
  fix e assume "defining_dict s = Inl e"
  then show "struct_repr s = Inl e" by (simp add: struct_repr_def)
next
  fix d assume d: "defining_dict s = Inr d"
  from collect_fields_Inr [OF d [unfolded defining_dict_def]]
  show "map fst d = filter (\<lambda>k. \<not> volatile k) (map fst (sc_defaults (s_class s)))"
    and "list_all (\<lambda>(k, v). py_getattr s k = Inr v) d" by simp_all
  let ?es = "py_sorted (map render d)"
  have "struct_repr s = Inr (sc_name (s_class s) @ ''('' @ join '', '' ?es @ '')'')"
    using d by (simp add: struct_repr_def)
  moreover have "sorted ?es" by (simp add: py_sorted_def)
  moreover have "mset ?es = image_mset render (mset d)" by (simp add: py_sorted_def)
  ultimately show "\<exists>es. struct_repr s = Inr (sc_name (s_class s) @ ''('' @ join '', '' es @ '')'') \<and>
            sorted es \<and> mset es = image_mset render (mset d)" by blast
qed

lemma prefix_obj_dict:
  "defining_dict prefix_obj = Inr [(''A'', PInt 1), (''A1'', PInt 2)]"
  by (simp add: defining_dict_def prefix_obj_def prefix_class_def volatile_def startswith_def
      py_getattr_def)

lemma prefix_obj_repr: "struct_repr prefix_obj = Inr ''Demo(A1:2, A:1)''"
  by (simp add: struct_repr_def prefix_obj_dict render_def py_sorted_def digits.simps
      digit_char_def) (simp add: prefix_obj_def prefix_class_def)

theorem struct_repr_canonical_witness:
  "defining_dict prefix_obj = Inr [(''A'', PInt 1), (''A1'', PInt 2)] \<and>
   struct_repr prefix_obj = Inr (''Demo'' @ ''('' @ join '', '' [''A1:2'', ''A:1''] @ '')'') \<and>
   sorted [''A1:2'', ''A:1''] \<and>
   mset [''A1:2'', ''A:1''] = image_mset render (mset [(''A'', PInt 1), (''A1'', PInt 2)]) \<and>
   py_getattr prefix_obj ''A'' = Inr (PInt 1) \<and> py_getattr prefix_obj ''A1'' = Inr (PInt 2)"
proof -
  note th = struct_repr_canonical [of prefix_obj, THEN conjunct2, rule_format, OF prefix_obj_dict]
  from th have "py_getattr prefix_obj ''A'' = Inr (PInt 1)" "py_getattr prefix_obj ''A1'' = Inr (PInt 2)"
    by simp_all
  moreover have "sorted [''A1:2'', ''A:1'']" by simp
  moreover have "mset [''A1:2'', ''A:1''] = image_mset render (mset [(''A'', PInt 1), (''A1'', PInt 2)])"
    by (simp add: render_def digits.simps digit_char_def)
  ultimately show ?thesis using prefix_obj_dict prefix_obj_repr by simp
qed

text \<open>
  The string is not the one the specification words: the separator is \<open>, \<close> and
  not \<open>; \<close>, and the order is the order of the rendered entries, which is not the
  order of the names when one name is another followed by a digit (\<open>A1:2\<close> comes before
  \<open>A:1\<close>, because \<open>1\<close> is below \<open>:\<close>).
\<close>

theorem repr_is_not_spec_identity:
  "struct_repr prefix_obj = Inr ''Demo(A1:2, A:1)'' \<and>
   spec_identity prefix_obj = Inr ''Demo(A:1; A1:2)'' \<and>
   struct_repr prefix_obj \<noteq> spec_identity prefix_obj"
proof -
  have "spec_identity prefix_obj = Inr ''Demo(A:1; A1:2)''"
    by (simp add: spec_identity_def prefix_obj_dict render_def digits.simps digit_char_def)
      (simp add: prefix_obj_def prefix_class_def)
  with prefix_obj_repr show ?thesis by simp
qed

lemma cosmo_obj_repr: "struct_repr (cosmo_obj seed) = Inr ''CosmoParams(SIGMA_8:0.82)''"
  by (simp add: struct_repr_def defining_dict_def cosmo_obj_def cosmo_class_def volatile_def
      startswith_def py_getattr_def render_def py_sorted_def)

text \<open>
  Claim C1. Two parameter records that differ in the seed only have the same
  \<^verbatim>\<open>repr\<close> and are equal under \<^verbatim>\<open>__eq__\<close>. Their hashes are not taken from that
  string: \<^verbatim>\<open>__hash__\<close> hands \<^verbatim>\<open>hash\<close> the bound method \<^verbatim>\<open>self.__repr__\<close>, an object
  that goes with the instance and not with its fields, so two instances hash different
  objects.
\<close>

theorem hash_ignores_repr:
  "py_getattr (cosmo_obj 1) ''RANDOM_SEED'' = Inr (PInt 1) \<and>
   py_getattr (cosmo_obj 2) ''RANDOM_SEED'' = Inr (PInt 2) \<and>
   struct_repr (cosmo_obj 1) = struct_repr (cosmo_obj 2) \<and>
   struct_eq (cosmo_obj 1) (cosmo_obj 2) = Inr True \<and>
   struct_hash_arg 0 (cosmo_obj 1) = HBoundMethod 0 ''__repr__'' \<and>
   struct_hash_arg 1 (cosmo_obj 2) = HBoundMethod 1 ''__repr__'' \<and>
   struct_hash_arg 0 (cosmo_obj 1) \<noteq> struct_hash_arg 1 (cosmo_obj 2)"
  by (simp add: cosmo_obj_repr struct_eq_def struct_hash_arg_def)
    (simp add: py_getattr_def cosmo_obj_def cosmo_class_def)

section \<open>Arrays and the foreign structure\<close>

lemma os_getattr_dict: "o_dict s' = o_dict s \<Longrightarrow> os_getattr C s' k = os_getattr C s k"
  by (simp add: os_getattr_def)

lemma os_hasattr_dict: "o_dict s' = o_dict s \<Longrightarrow> os_hasattr C s' k = os_hasattr C s k"
  by (simp add: os_hasattr_def os_getattr_def)


lemma os_cstruct_Some: "o_cstruct s = Some c \<Longrightarrow> os_cstruct C s = (Inr c, s)"
  by (simp add: os_cstruct_def)

lemma os_cstruct_Inr:
  "os_cstruct C s = (Inr c, s') \<Longrightarrow> o_cstruct s' = Some c \<and> o_dict s' = o_dict s"
  by (auto simp: os_cstruct_def split: option.splits sum.splits)

lemma os_cstruct_Inl:
  "os_cstruct C s = (Inl e, s') \<Longrightarrow> s' = s \<and> o_cstruct s = None \<and> os_new C s = Inl e"
  by (auto simp: os_cstruct_def split: option.splits sum.splits)

lemma os_new_error: "os_new C s = Inl e \<Longrightarrow> e = TypeError ''_id''"
  by (auto simp: os_new_def os_getattr_def base_attrs_def
      split: sum.splits option.splits pyobj.splits pyval.splits if_splits)

lemma pointer_fields_Some:
  "o_cstruct s = Some c \<Longrightarrow> pointer_fields C s = (Inr (pointer_names C), s)"
  by (simp add: pointer_fields_def os_fields_def pointer_names_def os_cstruct_Some)

lemma pointer_fields_Inr:
  "os_cstruct C s = (Inr c, s') \<Longrightarrow> pointer_fields C s = (Inr (pointer_names C), s')"
  by (simp add: pointer_fields_def os_fields_def pointer_names_def)

lemma pointer_fields_Inl:
  "os_cstruct C s = (Inl e, s') \<Longrightarrow> pointer_fields C s = (Inl e, s')"
  by (simp add: pointer_fields_def os_fields_def)

lemma primitive_fields_Some:
  "o_cstruct s = Some c \<Longrightarrow>
   primitive_fields C s = (Inr (map fst (filter (\<lambda>(f, t). t = Primitive) (oc_cfields C))), s)"
  by (simp add: primitive_fields_def os_fields_def os_cstruct_Some)

lemma arrays_loop_all:
  "arrays_loop C s c ks = list_all (\<lambda>k. os_hasattr C s k \<and> c k \<noteq> CNull) ks"
  by (induction ks) auto

lemma arrays_initialized_Inr:
  assumes "os_cstruct C s = (Inr c, s')"
  shows "arrays_initialized C s =
     (Inr (list_all (\<lambda>k. os_hasattr C s k \<and> c k \<noteq> CNull) (pointer_names C)), s')"
proof -
  from os_cstruct_Inr [OF assms] have c: "o_cstruct s' = Some c" and d: "o_dict s' = o_dict s"
    by simp_all
  show ?thesis
    by (simp add: arrays_initialized_def pointer_fields_Inr [OF assms] os_cstruct_Some [OF c]
        arrays_loop_all os_hasattr_dict [OF d])
qed

lemma arrays_initialized_Inl:
  "os_cstruct C s = (Inl e, s') \<Longrightarrow> arrays_initialized C s = (Inl e, s')"
  by (simp add: arrays_initialized_def pointer_fields_Inl)

lemma arrays_initialized_Some:
  "o_cstruct s = Some c \<Longrightarrow>
   arrays_initialized C s =
     (Inr (list_all (\<lambda>k. os_hasattr C s k \<and> c k \<noteq> CNull) (pointer_names C)), s)"
  by (rule arrays_initialized_Inr) (rule os_cstruct_Some)


lemma bind_pointers_keeps:
  "bind_pointers C ks s = (r, s') \<Longrightarrow> o_cstruct s \<noteq> None \<Longrightarrow>
   o_dict s' = o_dict s \<and> o_cstruct s' \<noteq> None"
proof (induction ks arbitrary: s)
  case Nil
  then show ?case by simp
next
  case (Cons k ks)
  from Cons.prems(2) obtain c where c: "o_cstruct s = Some c" by auto
  note cs = os_cstruct_Some [OF c]
  show ?case
  proof (cases "os_getattr C s k")
    case (Inl e)
    with Cons.prems cs show ?thesis by simp
  next
    case (Inr a)
    show ?thesis
    proof (cases "ary2buf a")
      case (Inl e)
      with Inr Cons.prems cs show ?thesis by simp
    next
      case p: (Inr p)
      show ?thesis
      proof (cases "oc_accepts C k p")
        case True
        with Inr p Cons.prems cs
        have "bind_pointers C ks (s\<lparr>o_cstruct := Some (c(k := p))\<rparr>) = (r, s')" by simp
        from Cons.IH [OF this] show ?thesis by simp
      next
        case False
        with Inr p Cons.prems cs show ?thesis by simp
      qed
    qed
  qed
qed

lemma set_primitives_keeps:
  "set_primitives C ks s = (r, s') \<Longrightarrow> o_cstruct s \<noteq> None \<Longrightarrow>
   o_dict s' = o_dict s \<and> o_cstruct s' \<noteq> None"
proof (induction ks arbitrary: s)
  case Nil
  then show ?case by simp
next
  case (Cons k ks)
  from Cons.prems(2) obtain c where c: "o_cstruct s = Some c" by auto
  note cs = os_cstruct_Some [OF c]
  show ?case
  proof (cases "os_getattr C s k")
    case (Inl e)
    show ?thesis
    proof (cases e)
      case (AttributeError m)
      with Inl Cons.prems cs have "set_primitives C ks s = (r, s')" by simp
      from Cons.IH [OF this Cons.prems(2)] show ?thesis .
    qed (use Inl Cons.prems cs in simp_all)
  next
    case (Inr a)
    show ?thesis
    proof (cases a)
      case (Val v)
      show ?thesis
      proof (cases "oc_accepts C k (CPrim v)")
        case True
        with Inr Val Cons.prems cs
        have "set_primitives C ks (s\<lparr>o_cstruct := Some (c(k := CPrim v))\<rparr>) = (r, s')" by simp
        from Cons.IH [OF this] show ?thesis by simp
      next
        case False
        with Inr Val Cons.prems cs show ?thesis by simp
      qed
    qed (use Inr Cons.prems cs in simp_all)
  qed
qed


lemma init_cstruct_unfold:
  assumes s1: "run_init_arrays C H s = Inr s1"
   and cs: "os_cstruct C s1 = (Inr c2, s2)"
   and b: "bind_pointers C (pointer_names C) s2 = (r3, s3)"
   and s4: "primitive_fields C s3 = (Inr qs, s3)"
   and p: "set_primitives C qs s3 = (r5, s5)"
   and ai: "arrays_initialized C s5 = (Inr ok, s5)"
  shows "init_cstruct C H s =
      (case r3 of Inl e \<Rightarrow> (Inl e, s3)
       | Inr u \<Rightarrow>
          (case r5 of Inl e \<Rightarrow> (Inl e, s5)
           | Inr u \<Rightarrow>
              (if \<not> ok
               then (Inl (AttributeError (oc_name C @
                  '' is ill-defined. It has not initialized all necessary arrays.'')), s5)
               else (Inr (), s5))))"
  apply (simp only: init_cstruct_def s1 sum.case pointer_fields_Inr [OF cs] prod.case b)
  apply (cases r3)
   apply (simp only: sum.case)
  apply (simp only: sum.case s4 prod.case p)
  apply (cases r5)
   apply (simp only: sum.case)
  apply (simp only: sum.case ai prod.case)
  done













section \<open>The fingerprint of a box\<close>

lemma same_identity_repr: "same_identity p q \<Longrightarrow> struct_repr p = struct_repr q"
  unfolding same_identity_def
  by (rule struct_repr_cong) (auto simp: list_all_iff)

lemma in_order_Inr: "in_order xs = Inr rs \<longleftrightarrow> xs = map Inr rs"
proof (induction xs arbitrary: rs)
  case Nil
  then show ?case by auto
next
  case (Cons x xs)
  show ?case
  proof (cases x)
    case (Inl e)
    then show ?thesis by (cases rs) auto
  next
    case (Inr r)
    show ?thesis
    proof (cases "in_order xs")
      case (Inl e)
      with Cons.IH have "\<And>ys. xs \<noteq> map Inr ys" by auto
      with Inl Inr show ?thesis by (cases rs) auto
    next
      case r2: (Inr ys)
      from Cons.IH [of ys] r2 have "xs = map Inr ys" by simp
      with r2 Inr show ?thesis by (cases rs) (auto simp: inj_map_eq_map)
    qed
  qed
qed

lemma param_reprs_eq: "param_reprs H d = in_order (map struct_repr (param_objs H d))"
proof (induction H d rule: param_reprs.induct)
  case (2 H k a d)
  show ?case
  proof (cases "H a")
    case None
    with 2 show ?thesis by simp
  next
    case (Some p)
    with 2 show ?thesis by (cases "struct_repr p") simp_all
  qed
qed simp_all

lemma param_objs_same_identity:
  "list_all2 same_identity ps qs \<Longrightarrow> map struct_repr ps = map struct_repr qs"
  by (induction rule: list_all2_induct) (simp_all add: same_identity_repr)

lemma user_obj_repr: "struct_repr user_obj = Inr ''UserParams(HII_DIM:64)''"
  by (simp add: struct_repr_def defining_dict_def user_obj_def user_class_def volatile_def
      startswith_def py_getattr_def render_def py_sorted_def digits.simps digit_char_def)


lemma box_name: "os_name C box_state = Inr ''InitialConditions''"
  by (simp add: os_name_def os_getattr_def box_state_def)

lemma box_objs: "param_objs (box_heap seed) (o_dict box_state) = [user_obj, cosmo_obj seed]"
  by (simp add: box_heap_def box_state_def)


lemma box_repr:
  "os_repr C (box_heap seed) box_state =
     Inr ''InitialConditions(UserParams(HII_DIM:64); CosmoParams(SIGMA_8:0.82))''"
  by (simp add: os_repr_def box_name param_reprs_eq box_objs user_obj_repr cosmo_obj_repr)


lemma box_seed: "cosmo_seed C (box_heap seed) box_state = Inr (PInt seed)"
  by (simp add: cosmo_seed_def os_getattr_def box_state_def box_heap_def py_getattr_def
      cosmo_obj_def cosmo_class_def)


text \<open>
  Claim C3, as the code has it. The fingerprint of a box is the digest of its \<^verbatim>\<open>repr\<close>:
  the \<^verbatim>\<open>_name\<close>, then in parentheses the \<^verbatim>\<open>repr\<close> of each attribute that is a
  parameter record, in the order of the instance dictionary, joined by \<open>; \<close>. Each
  of these is taken over the non-volatile fields of its record, so the seed is left out:
  two boxes of one \<^verbatim>\<open>_name\<close> whose parameter records are pairwise of one class and
  agree on every non-volatile field have the same \<^verbatim>\<open>repr\<close> and the same fingerprint,
  whatever their seeds.
\<close>

theorem fingerprint_over_identity:
  "(\<forall>n rs. os_name C s = Inr n \<and> map struct_repr (param_objs H (o_dict s)) = map Inr rs \<longrightarrow>
      os_md5 E C H s = Inr (md5hex E (n @ ''('' @ join ''; '' rs @ '')''))) \<and>
   (os_name C s = os_name C s' \<and>
    list_all2 same_identity (param_objs H (o_dict s)) (param_objs H' (o_dict s')) \<longrightarrow>
      os_repr C H s = os_repr C H' s' \<and> os_md5 E C H s = os_md5 E C H' s')"
proof (intro conjI allI impI)
  fix n rs
  assume a: "os_name C s = Inr n \<and> map struct_repr (param_objs H (o_dict s)) = map Inr rs"
  then have "param_reprs H (o_dict s) = Inr rs"
    by (simp add: param_reprs_eq in_order_Inr)
  with a show "os_md5 E C H s = Inr (md5hex E (n @ ''('' @ join ''; '' rs @ '')''))"
    by (simp add: os_md5_def os_repr_def)
next
  assume a: "os_name C s = os_name C s' \<and>
    list_all2 same_identity (param_objs H (o_dict s)) (param_objs H' (o_dict s'))"
  then have "map struct_repr (param_objs H (o_dict s)) = map struct_repr (param_objs H' (o_dict s'))"
    by (intro param_objs_same_identity) simp
  then have "param_reprs H (o_dict s) = param_reprs H' (o_dict s')"
    by (simp add: param_reprs_eq)
  with a show r: "os_repr C H s = os_repr C H' s'"
    by (simp add: os_repr_def split: sum.splits)
  then show "os_md5 E C H s = os_md5 E C H' s'" by (simp add: os_md5_def)
qed

theorem fingerprint_over_identity_witness:
  "os_name box_class box_state = Inr ''InitialConditions'' \<and>
   map struct_repr (param_objs (box_heap 1) (o_dict box_state)) =
     map Inr [''UserParams(HII_DIM:64)'', ''CosmoParams(SIGMA_8:0.82)''] \<and>
   os_md5 (list_env []) box_class (box_heap 1) box_state =
     Inr ''InitialConditions(UserParams(HII_DIM:64); CosmoParams(SIGMA_8:0.82))'' \<and>
   list_all2 same_identity (param_objs (box_heap 1) (o_dict box_state))
     (param_objs (box_heap 2) (o_dict box_state)) \<and>
   os_md5 (list_env []) box_class (box_heap 1) box_state =
     os_md5 (list_env []) box_class (box_heap 2) box_state"
proof -
  have n: "os_name box_class box_state = Inr ''InitialConditions''" by (rule box_name)
  have m: "map struct_repr (param_objs (box_heap 1) (o_dict box_state)) =
     map Inr [''UserParams(HII_DIM:64)'', ''CosmoParams(SIGMA_8:0.82)'']"
    by (simp add: box_objs user_obj_repr cosmo_obj_repr)
  have si: "list_all2 same_identity (param_objs (box_heap 1) (o_dict box_state))
     (param_objs (box_heap 2) (o_dict box_state))"
    by (simp add: box_objs same_identity_def)
      (simp add: cosmo_obj_def cosmo_class_def user_obj_def user_class_def py_getattr_def
        volatile_def startswith_def)
  note th = fingerprint_over_identity [of box_class box_state "box_heap 1" "list_env []"
      box_state "box_heap 2"]
  from th [THEN conjunct1, rule_format, of "''InitialConditions''"
      "[''UserParams(HII_DIM:64)'', ''CosmoParams(SIGMA_8:0.82)'']"] n m
  have d: "os_md5 (list_env []) box_class (box_heap 1) box_state =
     Inr ''InitialConditions(UserParams(HII_DIM:64); CosmoParams(SIGMA_8:0.82))''"
    by (simp add: list_env_def)
  from th [THEN conjunct2] si
  have "os_md5 (list_env []) box_class (box_heap 1) box_state =
     os_md5 (list_env []) box_class (box_heap 2) box_state" by simp
  with n m d si show ?thesis by simp
qed

text \<open>
  The fingerprint does not cover the full field sets: a change of the seed alone leaves
  it as it was, even under a digest that tells all strings apart. Nor does every change
  of another field change it: the float \<open>0.82\<close> and the text \<open>0.82\<close> print alike.
\<close>

theorem fingerprint_covers_seed_counterexample:
  "cosmo_seed box_class (box_heap 1) box_state = Inr (PInt 1) \<and>
   cosmo_seed box_class (box_heap 2) box_state = Inr (PInt 2) \<and>
   os_md5 (list_env []) box_class (box_heap 1) box_state =
     os_md5 (list_env []) box_class (box_heap 2) box_state \<and>
   map_option (\<lambda>p. py_getattr p ''SIGMA_8'') (box_heap 1 1) = Some (Inr (PFloat ''0.82'')) \<and>
   map_option (\<lambda>p. py_getattr p ''SIGMA_8'') (text_heap 1) = Some (Inr (PStr ''0.82'')) \<and>
   os_md5 (list_env []) box_class (box_heap 1) box_state =
     os_md5 (list_env []) box_class text_heap box_state"
proof -
  let ?t = "(cosmo_obj 1)\<lparr>s_attrs := (s_attrs (cosmo_obj 1))(''SIGMA_8'' \<mapsto> PStr ''0.82'')\<rparr>"
  have objs: "param_objs text_heap (o_dict box_state) = [user_obj, ?t]"
    by (simp add: text_heap_def box_state_def)
  have r: "struct_repr ?t = Inr ''CosmoParams(SIGMA_8:0.82)''"
    by (simp add: struct_repr_def defining_dict_def cosmo_obj_def cosmo_class_def volatile_def
        startswith_def py_getattr_def render_def py_sorted_def)
  have "os_repr box_class text_heap box_state =
     Inr ''InitialConditions(UserParams(HII_DIM:64); CosmoParams(SIGMA_8:0.82))''"
    unfolding os_repr_def box_name param_reprs_eq objs
    by (simp add: user_obj_repr r)
  moreover have "map_option (\<lambda>p. py_getattr p ''SIGMA_8'') (box_heap 1 1) = Some (Inr (PFloat ''0.82''))"
    "map_option (\<lambda>p. py_getattr p ''SIGMA_8'') (text_heap 1) = Some (Inr (PStr ''0.82''))"
    by (simp_all add: box_heap_def text_heap_def cosmo_obj_def cosmo_class_def py_getattr_def)
  ultimately show ?thesis by (simp add: box_seed os_md5_def box_repr)
qed

section \<open>Looking a box up\<close>

lemma os_getattr_error: "os_getattr C s k = Inl e \<Longrightarrow> e = AttributeError k"
  by (auto simp: os_getattr_def split: option.splits)

lemma py_getattr_error: "py_getattr p k = Inl e \<Longrightarrow> e = AttributeError k"
  by (auto simp: py_getattr_def split: option.splits)

lemma collect_fields_error: "collect_fields p ks = Inl e \<Longrightarrow> \<not> is_IOError e"
  by (induction ks) (auto split: sum.splits dest: py_getattr_error)

lemma struct_repr_error: "struct_repr p = Inl e \<Longrightarrow> \<not> is_IOError e"
  by (auto simp: struct_repr_def defining_dict_def split: sum.splits dest: collect_fields_error)

lemma in_order_error: "in_order xs = Inl e \<Longrightarrow> Inl e \<in> set xs"
proof (induction xs)
  case Nil
  then show ?case by simp
next
  case (Cons x xs)
  then show ?case by (cases x) (auto split: sum.splits)
qed

lemma param_reprs_error: "param_reprs H d = Inl e \<Longrightarrow> \<not> is_IOError e"
  by (auto simp: param_reprs_eq dest!: in_order_error struct_repr_error [OF sym])

lemma os_name_error: "os_name C s = Inl e \<Longrightarrow> \<not> is_IOError e"
  by (auto simp: os_name_def split: sum.splits pyobj.splits pyval.splits dest: os_getattr_error)

lemma os_repr_error: "os_repr C H s = Inl e \<Longrightarrow> \<not> is_IOError e"
  by (auto simp: os_repr_def split: sum.splits dest: os_name_error param_reprs_error)

lemma cosmo_seed_error: "cosmo_seed C H s = Inl e \<Longrightarrow> \<not> is_IOError e"
  by (auto simp: cosmo_seed_def split: sum.splits pyobj.splits option.splits
      dest: os_getattr_error py_getattr_error)

lemma hashname_error: "hashname E C H s = Inl e \<Longrightarrow> \<not> is_IOError e"
  by (auto simp: hashname_def os_md5_def split: sum.splits
      dest: os_name_error os_repr_error cosmo_seed_error)

lemma get_fname_error: "get_fname E C H s d f = Inl e \<Longrightarrow> hashname E C H s = Inl e"
  by (auto simp: get_fname_def split: sum.splits if_splits option.splits)

lemma find_existing_error:
  "find_existing E C H s direc fname ms = Inl e \<Longrightarrow> hashname E C H s = Inl e"
  unfolding find_existing_def Let_def
  by (auto split: sum.splits if_splits option.splits dest: get_fname_error)

lemma find_existing_found:
  "find_existing E C H s direc fname ms = Inr (Some p) \<Longrightarrow>
   path_exists E p \<or> (\<exists>f. find_file_without_seed E f = Some p)"
  unfolding find_existing_def Let_def
  by (auto split: sum.splits if_splits option.splits)

lemma box_hashname:
  "hashname (list_env fs) C (box_heap 3) box_state =
     Inr ''InitialConditions_InitialConditions(UserParams(HII_DIM:64); CosmoParams(SIGMA_8:0.82))_r3.h5''"
  by (simp add: hashname_def box_name os_md5_def box_repr box_seed list_env_def digits.simps
      digit_char_def)

lemma box_default_fname:
  "get_fname (list_env fs) C (box_heap 3) box_state None None = Inr (box_path ''/cache'' ''3'')"
  by (simp add: get_fname_def box_hashname path_join_def startswith_def box_path_def)
    (simp add: list_env_def)

lemma box_data_fname:
  "get_fname (list_env fs) C (box_heap 3) box_state (Some ''/data'') None = Inr (box_path ''/data'' ''3'')"
  by (simp add: get_fname_def box_hashname path_join_def startswith_def box_path_def)

lemma sub_seed_box_path:
  "sub_seed (box_path ''/cache'' ''3'') = box_path ''/cache'' ''*''"
  "sub_seed (box_path ''/data'' ''3'') = box_path ''/data'' ''*''"
  by (simp_all add: box_path_def is_digit_def)

lemma glob_box_path:
  "glob_match (box_path ''/cache'' ''*'') (box_path ''/cache'' ''1'')"
  "glob_match (box_path ''/data'' ''*'') (box_path ''/data'' ''1'')"
  "\<not> glob_match (box_path ''/cache'' ''*'') (box_path ''/data'' ''1'')"
  by (simp_all add: box_path_def)

lemma box_paths_differ:
  "box_path ''/cache'' ''3'' \<noteq> box_path ''/cache'' ''1''"
  "box_path ''/data'' ''3'' \<noteq> box_path ''/data'' ''1''"
  "box_path ''/cache'' ''3'' \<noteq> box_path ''/data'' ''1''"
  "box_path ''/cache'' ''1'' \<noteq> []" "box_path ''/data'' ''1'' \<noteq> []"
  by (simp_all add: box_path_def)

text \<open>
  Claim C2. With \<^verbatim>\<open>match_seed=True\<close> the seed-insensitive search is said not to run in
  any searched directory. The branch for a given directory keeps to this, and with
  \<^verbatim>\<open>match_seed=False\<close> returns the file of the other seed; the branch for the default
  directory runs the search whatever \<^verbatim>\<open>match_seed\<close> is. For a box asked with seed 3,
  when the only file is the one of seed 1: in the default directory, \<^verbatim>\<open>find_existing\<close>
  with \<^verbatim>\<open>match_seed=True\<close> returns that file, with no directory given and also with the
  directory \<open>/data\<close> given (the default directory is searched after it); in the given
  directory \<open>/data\<close> the file is not returned with \<^verbatim>\<open>match_seed=True\<close> and is returned
  with \<^verbatim>\<open>match_seed=False\<close>.
\<close>

theorem find_existing_match_seed_default_dir:
  "cosmo_seed box_class (box_heap 3) box_state = Inr (PInt 3) \<and>
   find_existing (list_env [(box_path ''/cache'' ''1'', box_file)]) box_class (box_heap 3) box_state
     None None True = Inr (Some (box_path ''/cache'' ''1'')) \<and>
   find_existing (list_env [(box_path ''/cache'' ''1'', box_file)]) box_class (box_heap 3) box_state
     (Some ''/data'') None True = Inr (Some (box_path ''/cache'' ''1'')) \<and>
   find_existing (list_env [(box_path ''/data'' ''1'', box_file)]) box_class (box_heap 3) box_state
     (Some ''/data'') None True = Inr None \<and>
   find_existing (list_env [(box_path ''/data'' ''1'', box_file)]) box_class (box_heap 3) box_state
     (Some ''/data'') None False = Inr (Some (box_path ''/data'' ''1''))"
  by (simp add: box_seed find_existing_def box_default_fname box_data_fname
      find_file_without_seed_def sub_seed_box_path Let_def)
    (simp add: list_env_def glob_box_path box_paths_differ)

section \<open>Reading a box\<close>

lemma run_init_arrays_error: "run_init_arrays C H s = Inl e \<Longrightarrow> \<not> is_IOError e"
  by (auto simp: run_init_arrays_def split: option.splits)

lemma ary2buf_error: "ary2buf a = Inl e \<Longrightarrow> \<not> is_IOError e"
  by (cases a) (auto split: option.splits)

lemma os_cstruct_error: "os_cstruct C s = (Inl e, s') \<Longrightarrow> \<not> is_IOError e"
  by (auto dest!: os_cstruct_Inl os_new_error)

lemma arrays_initialized_error: "arrays_initialized C s = (Inl e, s') \<Longrightarrow> \<not> is_IOError e"
proof -
  assume a: "arrays_initialized C s = (Inl e, s')"
  obtain r s1 where cs: "os_cstruct C s = (r, s1)" by (cases "os_cstruct C s") auto
  show ?thesis
  proof (cases r)
    case (Inl e1)
    with cs a show ?thesis by (auto simp: arrays_initialized_Inl dest: os_cstruct_error)
  next
    case (Inr c)
    with cs a show ?thesis by (simp add: arrays_initialized_Inr)
  qed
qed

lemma bind_pointers_error:
  "bind_pointers C ks s = (Inl e, s') \<Longrightarrow> o_cstruct s \<noteq> None \<Longrightarrow> \<not> is_IOError e"
proof (induction ks arbitrary: s)
  case Nil
  then show ?case by simp
next
  case (Cons k ks)
  from Cons.prems(2) obtain c where c: "o_cstruct s = Some c" by auto
  note cs = os_cstruct_Some [OF c]
  show ?case
  proof (cases "os_getattr C s k")
    case (Inl e1)
    with Cons.prems cs show ?thesis by (auto dest: os_getattr_error)
  next
    case (Inr a)
    show ?thesis
    proof (cases "ary2buf a")
      case (Inl e1)
      with Inr Cons.prems cs show ?thesis by (auto dest: ary2buf_error)
    next
      case p: (Inr p)
      show ?thesis
      proof (cases "oc_accepts C k p")
        case True
        with Inr p Cons.prems cs
        have "bind_pointers C ks (s\<lparr>o_cstruct := Some (c(k := p))\<rparr>) = (Inl e, s')" by simp
        from Cons.IH [OF this] show ?thesis by simp
      next
        case False
        with Inr p Cons.prems cs show ?thesis by auto
      qed
    qed
  qed
qed

lemma set_primitives_error:
  "set_primitives C ks s = (Inl e, s') \<Longrightarrow> o_cstruct s \<noteq> None \<Longrightarrow> \<not> is_IOError e"
proof (induction ks arbitrary: s)
  case Nil
  then show ?case by simp
next
  case (Cons k ks)
  from Cons.prems(2) obtain c where c: "o_cstruct s = Some c" by auto
  note cs = os_cstruct_Some [OF c]
  show ?case
  proof (cases "os_getattr C s k")
    case (Inl e1)
    then have "e1 = AttributeError k" by (rule os_getattr_error)
    with Inl Cons.prems cs have "set_primitives C ks s = (Inl e, s')" by simp
    from Cons.IH [OF this Cons.prems(2)] show ?thesis .
  next
    case (Inr a)
    show ?thesis
    proof (cases a)
      case (Val v)
      show ?thesis
      proof (cases "oc_accepts C k (CPrim v)")
        case True
        with Inr Val Cons.prems cs
        have "set_primitives C ks (s\<lparr>o_cstruct := Some (c(k := CPrim v))\<rparr>) = (Inl e, s')" by simp
        from Cons.IH [OF this] show ?thesis by simp
      next
        case False
        with Inr Val Cons.prems cs show ?thesis by auto
      qed
    qed (use Inr Cons.prems cs in auto)
  qed
qed

lemma init_cstruct_error:
  assumes "init_cstruct C H s = (Inl e, s')"
  shows "\<not> is_IOError e"
proof (cases "run_init_arrays C H s")
  case (Inl e1)
  with assms show ?thesis by (auto simp: init_cstruct_def dest: run_init_arrays_error)
next
  case s1: (Inr s1)
  obtain r2 s2 where cs0: "os_cstruct C s1 = (r2, s2)" by (cases "os_cstruct C s1") auto
  show ?thesis
  proof (cases r2)
    case (Inl e2)
    with cs0 assms s1 show ?thesis
      by (auto simp: init_cstruct_def pointer_fields_Inl dest: os_cstruct_error)
  next
    case (Inr c2)
    with cs0 have cs: "os_cstruct C s1 = (Inr c2, s2)" by simp
    from os_cstruct_Inr [OF cs] have made2: "o_cstruct s2 \<noteq> None" by simp
    obtain r3 s3 where b: "bind_pointers C (pointer_names C) s2 = (r3, s3)"
      by (cases "bind_pointers C (pointer_names C) s2") auto
    from bind_pointers_keeps [OF b made2] have made3: "o_cstruct s3 \<noteq> None" by simp
    then obtain c3 where c3: "o_cstruct s3 = Some c3" by auto
    note s4 = primitive_fields_Some [OF c3, of C]
    obtain r5 s5 where p: "set_primitives C (map fst (filter (\<lambda>(f, t). t = Primitive) (oc_cfields C))) s3 = (r5, s5)"
      by (cases "set_primitives C (map fst (filter (\<lambda>(f, t). t = Primitive) (oc_cfields C))) s3") auto
    from set_primitives_keeps [OF p made3] obtain c5 where c5: "o_cstruct s5 = Some c5" by auto
    note ai = arrays_initialized_Some [OF c5, of C]
    note unf = init_cstruct_unfold [OF s1 cs b s4 p ai]
    show ?thesis
    proof (cases r3)
      case (Inl e3)
      with assms [unfolded unf] b made2 show ?thesis by (auto dest: bind_pointers_error)
    next
      case r3: (Inr u)
      show ?thesis
      proof (cases r5)
        case (Inl e5)
        with r3 assms [unfolded unf] p made3 show ?thesis by (auto dest: set_primitives_error)
      next
        case (Inr v)
        with r3 assms [unfolded unf] show ?thesis
          by (cases "list_all (\<lambda>k. os_hasattr C s5 k \<and> c5 k \<noteq> CNull) (pointer_names C)") auto
      qed
    qed
  qed
qed

lemma fill_arrays_error: "fill_arrays E C ds s = (Inl e, s') \<Longrightarrow> \<not> is_IOError e"
proof (induction ds arbitrary: s)
  case Nil
  then show ?case by simp
next
  case (Cons d ds)
  obtain k xs where d: "d = (k, xs)" by (cases d)
  show ?case
  proof (cases "os_getattr C s k")
    case (Inl e1)
    with Cons.prems d show ?thesis by (auto dest: os_getattr_error)
  next
    case (Inr a)
    show ?thesis
    proof (cases a)
      case (Array dt ys)
      with Inr Cons.prems d show ?thesis
        by (cases "broadcast xs (length ys)") (auto dest: Cons.IH)
    qed (use Inr Cons.prems d in auto)
  qed
qed

lemma stored_seed_error: "stored_seed f = Inl e \<Longrightarrow> \<not> is_IOError e"
  by (auto simp: stored_seed_def split: option.splits)

lemma set_cosmo_seed_error: "set_cosmo_seed C H s seed = Inl e \<Longrightarrow> \<not> is_IOError e"
  by (auto simp: set_cosmo_seed_def py_setattr_def split: sum.splits pyobj.splits option.splits
      dest: os_getattr_error)

lemma read_file_error: "read_file E C H s f = (Inl e, H', s') \<Longrightarrow> e \<noteq> not_found"
proof -
  assume a: "read_file E C H s f = (Inl e, H', s')"
  show ?thesis
  proof (cases "os_getattr C s ''_name''")
    case (Inl e1)
    with a show ?thesis by (auto simp: read_file_def not_found_def dest: os_getattr_error)
  next
    case (Inr n)
    show ?thesis
    proof (cases "case n of Val (PStr g) \<Rightarrow> map_of f g | _ \<Rightarrow> None")
      case None
      with Inr a show ?thesis by (auto simp: read_file_def not_found_def)
    next
      case (Some boxes)
      obtain r1 s1 where fa: "fill_arrays E C (g_datasets boxes) s = (r1, s1)"
        by (cases "fill_arrays E C (g_datasets boxes) s") auto
      show ?thesis
      proof (cases r1)
        case (Inl e1)
        with Inr Some fa a show ?thesis
          by (auto simp: read_file_def not_found_def dest: fill_arrays_error)
      next
        case r1: (Inr u)
        show ?thesis
        proof (cases "stored_seed f")
          case (Inl e1)
          with Inr Some fa r1 a show ?thesis
            by (auto simp: read_file_def not_found_def Let_def dest: stored_seed_error)
        next
          case sd: (Inr seed)
          with Inr Some fa r1 a show ?thesis
            by (auto simp: read_file_def not_found_def Let_def split: sum.splits
                dest: set_cosmo_seed_error)
        qed
      qed
    qed
  qed
qed

lemma read_not_found:
  "fst (read E C H s direc fname ms) = Inl not_found \<longleftrightarrow>
   find_existing E C H s direc fname ms = Inr None"
proof (cases "find_existing E C H s direc fname ms")
  case (Inl e)
  from hashname_error [OF find_existing_error [OF Inl]] have "e \<noteq> not_found"
    by (auto simp: not_found_def)
  with Inl show ?thesis by (simp add: read_def)
next
  case (Inr r)
  show ?thesis
  proof (cases r)
    case None
    with Inr show ?thesis by (simp add: read_def not_found_def)
  next
    case (Some pth)
    obtain r1 s1 where ai: "arrays_initialized C s = (r1, s1)"
      by (cases "arrays_initialized C s") auto
    have "fst (read E C H s direc fname ms) \<noteq> Inl not_found"
    proof (cases r1)
      case (Inl e)
      with ai have "arrays_initialized C s = (Inl e, s1)" by simp
      from arrays_initialized_error [OF this] have "e \<noteq> not_found" by (auto simp: not_found_def)
      with Inr Some ai Inl show ?thesis by (simp add: read_def)
    next
      case ok: (Inr ok)
      obtain r2 s2 where ic: "(if \<not> ok then init_cstruct C H s1 else (Inr (), s1)) = (r2, s2)"
        by (cases "if \<not> ok then init_cstruct C H s1 else (Inr (), s1)") auto
      show ?thesis
      proof (cases r2)
        case (Inl e)
        with ic have "init_cstruct C H s1 = (Inl e, s2)" by (auto split: if_splits)
        from init_cstruct_error [OF this] have "e \<noteq> not_found" by (auto simp: not_found_def)
        with Inr Some ai ok ic Inl show ?thesis by (simp add: read_def)
      next
        case r2: (Inr u)
        show ?thesis
        proof (cases "h5_open E pth")
          case None
          with Inr Some ai ok ic r2 show ?thesis by (simp add: read_def not_found_def)
        next
          case f: (Some f)
          obtain r3 H3 s3 where rf: "read_file E C H s2 f = (r3, H3, s3)"
            by (cases "read_file E C H s2 f") auto
          with read_file_error [of E C H s2 f _ H3 s3] have "r3 \<noteq> Inl not_found" by auto
          with Inr Some ai ok ic r2 f rf show ?thesis by (simp add: read_def)
        qed
      qed
    qed
    with Inr Some show ?thesis by simp
  qed
qed





lemma box_find_default:
  "find_existing (list_env [(box_path ''/cache'' ''1'', box_file)]) box_class (box_heap 3) box_state
     None None ms = Inr (Some (box_path ''/cache'' ''1''))"
  by (simp add: find_existing_def box_default_fname find_file_without_seed_def sub_seed_box_path Let_def)
    (simp add: list_env_def glob_box_path box_paths_differ)











lemma bad_hashname:
  "hashname E box_class (box_heap 3) (os_setattr box_state ''cosmo_params'' (Val PNone)) =
     Inl (AttributeError ''RANDOM_SEED'')"
  by (simp add: hashname_def os_name_def os_md5_def os_repr_def user_obj_repr cosmo_seed_def
      os_getattr_def os_setattr_def box_state_def box_heap_def)

lemma bad_find_existing:
  "find_existing E box_class (box_heap 3) (os_setattr box_state ''cosmo_params'' (Val PNone))
     None None ms = Inl (AttributeError ''RANDOM_SEED'')"
  by (simp add: find_existing_def get_fname_def bad_hashname)

lemma box_find_nothing:
  "find_existing (list_env []) box_class (box_heap 3) box_state (Some ''/data'') None ms = Inr None"
  by (simp add: find_existing_def box_default_fname box_data_fname find_file_without_seed_def Let_def)
    (simp add: list_env_def)

text \<open>
  Claim C5. \<^verbatim>\<open>find_existing\<close> returns a path or \<^verbatim>\<open>None\<close>, for every directory, file
  name and \<^verbatim>\<open>match_seed\<close>: it raises only when the name of the file cannot be
  computed (\<^verbatim>\<open>_hashname\<close> raises, and then what it raises is no \<^verbatim>\<open>IOError\<close>), never
  because no file was found; a path it returns exists or was returned by the search on
  the file name without the seed. \<^verbatim>\<open>read\<close> raises the \<^verbatim>\<open>IOError\<close> that says
  no boxes exist exactly when \<^verbatim>\<open>find_existing\<close>, with the same arguments, returns
  \<^verbatim>\<open>None\<close>, and then leaves the store and the instance as they were.
\<close>

theorem find_existing_miss_is_None:
  "(\<forall>e. find_existing E C H s direc fname ms = Inl e \<longrightarrow>
      hashname E C H s = Inl e \<and> \<not> is_IOError e) \<and>
   (\<forall>p. find_existing E C H s direc fname ms = Inr (Some p) \<longrightarrow>
      path_exists E p \<or> (\<exists>f. find_file_without_seed E f = Some p)) \<and>
   (fst (read E C H s direc fname ms) = Inl not_found \<longleftrightarrow>
      find_existing E C H s direc fname ms = Inr None) \<and>
   (find_existing E C H s direc fname ms = Inr None \<longrightarrow>
      read E C H s direc fname ms = (Inl not_found, H, s))"
proof (intro conjI allI impI)
  fix e assume a: "find_existing E C H s direc fname ms = Inl e"
  from find_existing_error [OF a] show "hashname E C H s = Inl e" .
  then show "\<not> is_IOError e" by (rule hashname_error)
next
  fix p assume "find_existing E C H s direc fname ms = Inr (Some p)"
  then show "path_exists E p \<or> (\<exists>f. find_file_without_seed E f = Some p)"
    by (rule find_existing_found)
next
  show "fst (read E C H s direc fname ms) = Inl not_found \<longleftrightarrow>
      find_existing E C H s direc fname ms = Inr None" by (rule read_not_found)
next
  assume "find_existing E C H s direc fname ms = Inr None"
  then show "read E C H s direc fname ms = (Inl not_found, H, s)"
    by (simp add: read_def not_found_def)
qed

theorem find_existing_miss_is_None_witness:
  "find_existing (list_env []) box_class (box_heap 3)
     (os_setattr box_state ''cosmo_params'' (Val PNone)) None None False =
     Inl (AttributeError ''RANDOM_SEED'') \<and>
   hashname (list_env []) box_class (box_heap 3)
     (os_setattr box_state ''cosmo_params'' (Val PNone)) = Inl (AttributeError ''RANDOM_SEED'') \<and>
   find_existing (list_env [(box_path ''/cache'' ''1'', box_file)]) box_class (box_heap 3) box_state
     None None False = Inr (Some (box_path ''/cache'' ''1'')) \<and>
   fst (read (list_env [(box_path ''/cache'' ''1'', box_file)]) box_class (box_heap 3) box_state
     None None False) \<noteq> Inl not_found \<and>
   find_existing (list_env []) box_class (box_heap 3) box_state (Some ''/data'') None True = Inr None \<and>
   read (list_env []) box_class (box_heap 3) box_state (Some ''/data'') None True =
     (Inl not_found, box_heap 3, box_state)"
proof -
  let ?H = "box_heap 3"
  let ?E = "list_env [(box_path ''/cache'' ''1'', box_file)]"
  let ?bad = "os_setattr box_state ''cosmo_params'' (Val PNone)"
  note th = find_existing_miss_is_None
  have a: "find_existing (list_env []) box_class ?H ?bad None None False =
      Inl (AttributeError ''RANDOM_SEED'')"
    by (rule bad_find_existing)
  from th [THEN conjunct1, rule_format, OF a]
  have b: "hashname (list_env []) box_class ?H ?bad = Inl (AttributeError ''RANDOM_SEED'')"
    by simp
  have c: "find_existing ?E box_class ?H box_state None None False =
      Inr (Some (box_path ''/cache'' ''1''))"
    by (rule box_find_default)
  from th [of ?E box_class ?H box_state None None False, THEN conjunct2, THEN conjunct2, THEN conjunct1] c
  have d: "fst (read ?E box_class ?H box_state None None False) \<noteq> Inl not_found"
    by simp
  have e: "find_existing (list_env []) box_class ?H box_state (Some ''/data'') None True = Inr None"
    by (rule box_find_nothing)
  from th [THEN conjunct2, THEN conjunct2, THEN conjunct2, rule_format, OF e]
  have f: "read (list_env []) box_class ?H box_state (Some ''/data'') None True =
      (Inl not_found, ?H, box_state)" .
  from a b c d e f show ?thesis by (intro conjI)
qed





end
